theory Spec2Isabelle
  imports Complex_Main "HOL-Library.Product_Lexorder"
begin

section \<open>Values of the data source and the Python operations on them\<close>

text \<open>
  The records that reach \<^verbatim>\<open>process_raw_data\<close> and \<^verbatim>\<open>process_goal_data\<close> are decoded
  JSON: dictionaries, lists, strings, numbers, booleans and \<^verbatim>\<open>None\<close>. A dictionary is an
  association list read with \<open>map_of\<close> (a Python dictionary has no duplicate keys).
  Python's \<^verbatim>\<open>int\<close> and \<^verbatim>\<open>float\<close> are both read as exact rationals: rounding of
  floating-point arithmetic is outside this development.
\<close>

datatype json =
    JNull
  | JBool bool
  | JNum rat
  | JStr string
  | JArr "json list"
  | JObj "(string \<times> json) list"

datatype error = KeyError string | TypeError | IndexError | AttributeError | ValueError

text \<open>Sequencing of computations that may raise: the first exception ends the computation.\<close>

fun bind_result :: "error + 'a \<Rightarrow> ('a \<Rightarrow> error + 'b) \<Rightarrow> error + 'b" where
  "bind_result (Inl e) f = Inl e"
| "bind_result (Inr v) f = f v"

text \<open>Truth value of an object, as \<^verbatim>\<open>not x\<close> and \<^verbatim>\<open>x or y\<close> test it.\<close>

fun truthy :: "json \<Rightarrow> bool" where
  "truthy JNull = False"
| "truthy (JBool b) = b"
| "truthy (JNum n) = (n \<noteq> 0)"
| "truthy (JStr s) = (s \<noteq> [])"
| "truthy (JArr xs) = (xs \<noteq> [])"
| "truthy (JObj kvs) = (kvs \<noteq> [])"

definition py_or :: "json \<Rightarrow> json \<Rightarrow> json" where
  "py_or a b = (if truthy a then a else b)"

text \<open>\<^verbatim>\<open>x[key]\<close> for a string key: only a dictionary can be subscripted by a string.\<close>

fun getitem :: "json \<Rightarrow> string \<Rightarrow> error + json" where
  "getitem (JObj kvs) key =
     (case map_of kvs key of None \<Rightarrow> Inl (KeyError key) | Some v \<Rightarrow> Inr v)"
| "getitem _ key = Inl TypeError"

text \<open>
  \<^verbatim>\<open>x[0]\<close>. A dictionary decoded from JSON has string keys only, so the integer key is
  missing. Of a string only the fact that its first character is again a string matters
  to the callers below.
\<close>

fun getitem0 :: "json \<Rightarrow> error + json" where
  "getitem0 (JArr []) = Inl IndexError"
| "getitem0 (JArr (x # xs)) = Inr x"
| "getitem0 (JStr []) = Inl IndexError"
| "getitem0 (JStr (c # cs)) = Inr (JStr [c])"
| "getitem0 (JObj kvs) = Inl (KeyError ''0'')"
| "getitem0 _ = Inl TypeError"

text \<open>\<^verbatim>\<open>x.get(key, default)\<close>: a method of dictionaries only.\<close>

fun dict_get :: "json \<Rightarrow> string \<Rightarrow> json \<Rightarrow> error + json" where
  "dict_get (JObj kvs) key dflt =
     Inr (case map_of kvs key of None \<Rightarrow> dflt | Some v \<Rightarrow> v)"
| "dict_get _ key dflt = Inl AttributeError"

text \<open>
  \<^verbatim>\<open>x * 60\<close>: arithmetic on numbers (a boolean counts as 0 or 1), repetition on strings
  and lists, a \<^verbatim>\<open>TypeError\<close> otherwise.
\<close>

fun mul60 :: "json \<Rightarrow> error + json" where
  "mul60 (JNum n) = Inr (JNum (n * 60))"
| "mul60 (JBool b) = Inr (JNum (if b then 60 else 0))"
| "mul60 (JStr s) = Inr (JStr (concat (replicate 60 s)))"
| "mul60 (JArr xs) = Inr (JArr (concat (replicate 60 xs)))"
| "mul60 _ = Inl TypeError"

section \<open>Calendar dates\<close>

text \<open>
  A date is the triple (year, month, day) of a \<^verbatim>\<open>datetime\<close> at midnight; the order on
  dates is the lexicographic order of the triple, which is how \<^verbatim>\<open>datetime\<close> values
  compare.
\<close>

type_synonym date = "nat \<times> nat \<times> nat"

definition year_of :: "date \<Rightarrow> nat" where
  "year_of d = fst d"

definition month_of :: "date \<Rightarrow> nat" where
  "month_of d = fst (snd d)"

definition day_of :: "date \<Rightarrow> nat" where
  "day_of d = snd (snd d)"

definition isleap :: "nat \<Rightarrow> bool" where
  "isleap y = (y mod 4 = 0 \<and> (y mod 100 \<noteq> 0 \<or> y mod 400 = 0))"

text \<open>Second component of \<^verbatim>\<open>calendar.monthrange(year, month)\<close>, for a month in 1..12.\<close>

definition days_in_month :: "nat \<Rightarrow> nat \<Rightarrow> nat" where
  "days_in_month y m =
     (if m = 2 then (if isleap y then 29 else 28)
      else if m = 4 \<or> m = 6 \<or> m = 9 \<or> m = 11 then 30 else 31)"

definition valid_date :: "date \<Rightarrow> bool" where
  "valid_date d =
     (1 \<le> year_of d \<and> 1 \<le> month_of d \<and> month_of d \<le> 12 \<and>
      1 \<le> day_of d \<and> day_of d \<le> days_in_month (year_of d) (month_of d))"

section \<open>Record normalisation (app.py)\<close>

text \<open>
  The property names of the source, as the UTF-8 bytes of the Japanese strings
  \<^verbatim>\<open>PROPERTY_DATE\<close>, \<^verbatim>\<open>PROPERTY_TIME\<close>, and of the two names used by
  \<^verbatim>\<open>process_goal_data\<close> (month title, goal study time).
\<close>

definition PROPERTY_DATE :: string where
  "PROPERTY_DATE = [CHR 0xE6, CHR 0x97, CHR 0xA5, CHR 0xE4, CHR 0xBB, CHR 0x98]"

definition PROPERTY_TIME :: string where
  "PROPERTY_TIME =
     [CHR 0xE5, CHR 0x8B, CHR 0x89, CHR 0xE5, CHR 0xBC, CHR 0xB7, CHR 0xE6, CHR 0x99,
      CHR 0x82, CHR 0xE9, CHR 0x96, CHR 0x93, CHR 0x28, CHR 0xE5, CHR 0x88, CHR 0x86,
      CHR 0x29]"

definition PROPERTY_MONTH_TITLE :: string where
  "PROPERTY_MONTH_TITLE =
     [CHR 0xE6, CHR 0x9C, CHR 0x88, CHR 0xE3, CHR 0x82, CHR 0xBF, CHR 0xE3, CHR 0x82,
      CHR 0xA4, CHR 0xE3, CHR 0x83, CHR 0x88, CHR 0xE3, CHR 0x83, CHR 0xAB]"

definition PROPERTY_GOAL_TIME :: string where
  "PROPERTY_GOAL_TIME =
     [CHR 0xE7, CHR 0x9B, CHR 0xAE, CHR 0xE6, CHR 0xA8, CHR 0x99, CHR 0xE5, CHR 0xAD,
      CHR 0xA6, CHR 0xE7, CHR 0xBF, CHR 0x92, CHR 0xE6, CHR 0x99, CHR 0x82, CHR 0xE9,
      CHR 0x96, CHR 0x93]"

subsection \<open>Activity records: \<^verbatim>\<open>process_raw_data\<close>\<close>

text \<open>
  One pass of the loop body over a page: \<open>Inr None\<close> is \<^verbatim>\<open>continue\<close>,
  \<open>Inr (Some (date_str, learning_time))\<close> is the dictionary appended to \<^verbatim>\<open>data\<close>, and
  \<open>Inl e\<close> is an exception leaving the function.
\<close>

definition learning_time_of :: "json \<Rightarrow> error + json" where
  "learning_time_of time_prop =
     (if \<not> truthy time_prop then Inr (JNum 0)
      else bind_result (getitem time_prop ''type'') (\<lambda>ty.
        if ty \<noteq> JStr ''number'' then Inr (JNum 0)
        else bind_result (getitem time_prop ''number'') (\<lambda>n. Inr (py_or n (JNum 0)))))"

definition raw_page :: "json \<Rightarrow> error + (json \<times> json) option" where
  "raw_page page =
     bind_result (getitem page ''properties'') (\<lambda>props.
     bind_result (dict_get props PROPERTY_DATE (JObj [])) (\<lambda>date_prop.
       if \<not> truthy date_prop then Inr None
       else bind_result (getitem date_prop ''type'') (\<lambda>ty.
         if ty \<noteq> JStr ''date'' then Inr None
         else bind_result (getitem date_prop ''date'') (\<lambda>dt.
           if \<not> truthy dt then Inr None
           else bind_result (getitem dt ''start'') (\<lambda>date_str.
             bind_result (dict_get props PROPERTY_TIME (JObj [])) (\<lambda>time_prop.
             bind_result (learning_time_of time_prop) (\<lambda>learning_time.
               Inr (Some (date_str, learning_time)))))))))"

fun process_raw_loop ::
  "json list \<Rightarrow> (json \<times> json) list \<Rightarrow> error + (json \<times> json) list" where
  "process_raw_loop [] data = Inr data"
| "process_raw_loop (page # results) data =
     (case raw_page page of
        Inl e \<Rightarrow> Inl e
      | Inr None \<Rightarrow> process_raw_loop results data
      | Inr (Some row) \<Rightarrow> process_raw_loop results (data @ [row]))"

text \<open>
  \<^verbatim>\<open>pd.to_datetime\<close> on the Date column: the parser of pandas is a parameter
  \<open>to_datetime\<close>, applied to each cell in turn; the first cell it rejects raises.
\<close>

fun to_datetime_col ::
  "(json \<Rightarrow> error + date) \<Rightarrow> (json \<times> 'v) list \<Rightarrow> error + (date \<times> 'v) list" where
  "to_datetime_col to_datetime [] = Inr []"
| "to_datetime_col to_datetime ((s, v) # rows) =
     bind_result (to_datetime s) (\<lambda>d.
     bind_result (to_datetime_col to_datetime rows) (\<lambda>rest. Inr ((d, v) # rest)))"

text \<open>
  The frame returned by \<^verbatim>\<open>process_raw_data\<close>, as its list of rows (Date, LearningTime);
  the empty frame is the empty list.
\<close>

definition process_raw_data ::
  "(json \<Rightarrow> error + date) \<Rightarrow> json list \<Rightarrow> error + (date \<times> json) list" where
  "process_raw_data to_datetime results =
     bind_result (process_raw_loop results []) (\<lambda>data.
       if data = [] then Inr [] else to_datetime_col to_datetime data)"

subsection \<open>Goal records: \<^verbatim>\<open>process_goal_data\<close>\<close>

text \<open>
  A string of the model is the UTF-8 encoding of the Python string. Its characters are
  read back as code points: the first byte of a character tells how many bytes it takes.
  (A list of bytes that is not the encoding of a string stands for no input of the
  program; it is decoded all the same, byte group by byte group.)
\<close>

definition utf8_len :: "char \<Rightarrow> nat" where
  "utf8_len b =
     (if (of_char b :: nat) < 0xC0 then 1
      else if (of_char b :: nat) < 0xE0 then 2
      else if (of_char b :: nat) < 0xF0 then 3 else 4)"

fun utf8_value :: "string \<Rightarrow> nat" where
  "utf8_value [a] = of_char a"
| "utf8_value [a, b] = (of_char a - 0xC0) * 64 + (of_char b - 0x80)"
| "utf8_value [a, b, c] =
     (of_char a - 0xE0) * 4096 + (of_char b - 0x80) * 64 + (of_char c - 0x80)"
| "utf8_value [a, b, c, d] =
     (of_char a - 0xF0) * 262144 + (of_char b - 0x80) * 4096 + (of_char c - 0x80) * 64
     + (of_char d - 0x80)"
| "utf8_value _ = 0"

function code_points :: "string \<Rightarrow> nat list" where
  "code_points s =
     (if s = [] then []
      else utf8_value (take (utf8_len (hd s)) s) # code_points (drop (utf8_len (hd s)) s))"
  by pat_completeness auto
termination
  by (relation "measure length") (auto simp: utf8_len_def)

declare code_points.simps [simp del]

text \<open>
  The decimal digits of Unicode (the characters of category Nd) come in runs of ten, from
  the digit zero to the digit nine of a script; the table lists the code point of each
  zero, as of Unicode 14.0, the version of Python 3.11 (the table of an interpreter is
  that of the Unicode version it carries, and later versions add scripts). The digits 0 to 9 of ASCII start at 0x30,
  the full-width digits at 0xFF10.
\<close>

definition decimal_digit_zeros :: "nat list" where
  "decimal_digit_zeros =
     [0x30, 0x660, 0x6F0, 0x7C0, 0x966, 0x9E6, 0xA66, 0xAE6,
      0xB66, 0xBE6, 0xC66, 0xCE6, 0xD66, 0xDE6, 0xE50, 0xED0,
      0xF20, 0x1040, 0x1090, 0x17E0, 0x1810, 0x1946, 0x19D0, 0x1A80,
      0x1A90, 0x1B50, 0x1BB0, 0x1C40, 0x1C50, 0xA620, 0xA8D0, 0xA900,
      0xA9D0, 0xA9F0, 0xAA50, 0xABF0, 0xFF10, 0x104A0, 0x10D30, 0x11066,
      0x110F0, 0x11136, 0x111D0, 0x112F0, 0x11450, 0x114D0, 0x11650, 0x116C0,
      0x11730, 0x118E0, 0x11950, 0x11C50, 0x11D50, 0x11DA0, 0x16A60, 0x16AC0,
      0x16B50, 0x1D7CE, 0x1D7D8, 0x1D7E2, 0x1D7EC, 0x1D7F6, 0x1E140, 0x1E2F0,
      0x1E950, 0x1FBF0]"

text \<open>The value of a decimal digit; \<open>None\<close> for any other character.\<close>

definition decimal_digit :: "nat \<Rightarrow> nat option" where
  "decimal_digit c =
     (case filter (\<lambda>z. z \<le> c \<and> c < z + 10) decimal_digit_zeros of
        [] \<Rightarrow> None
      | z # zs \<Rightarrow> Some (c - z))"

text \<open>Lower case of a character: only the letters A to Z of ASCII matter below.\<close>

definition lower :: "nat \<Rightarrow> nat" where
  "lower c = (if 65 \<le> c \<and> c \<le> 90 then c + 32 else c)"

text \<open>The abbreviated month names of the C locale, in lower case.\<close>

definition month_abbr :: "string list" where
  "month_abbr = [''jan'', ''feb'', ''mar'', ''apr'', ''may'', ''jun'',
                 ''jul'', ''aug'', ''sep'', ''oct'', ''nov'', ''dec'']"

fun index_of :: "'a \<Rightarrow> 'a list \<Rightarrow> nat option" where
  "index_of x [] = None"
| "index_of x (y # ys) =
     (if x = y then Some 0 else map_option Suc (index_of x ys))"

text \<open>
  \<^verbatim>\<open>datetime.strptime(s, "%Y-%b")\<close>. The text must be exactly: four decimal digits
  (the \<^verbatim>\<open>\d\<close> of the regular expression accepts the decimal digits of every script,
  and \<^verbatim>\<open>int\<close> reads them), a hyphen, and an abbreviated month name matched without
  regard to case; the year must be at least 1. The result is the first day of that
  month. A failed parse is a \<^verbatim>\<open>ValueError\<close>, an argument that is not a string a
  \<^verbatim>\<open>TypeError\<close>.
\<close>

definition strptime_Y_b :: "json \<Rightarrow> error + date" where
  "strptime_Y_b month_str =
     (case month_str of
        JStr s \<Rightarrow>
          (let cs = code_points s in
           if length cs = 8 \<and> list_all (\<lambda>c. decimal_digit c \<noteq> None) (take 4 cs) \<and>
              cs ! 4 = of_char (CHR ''-'') then
             (case index_of (map lower (drop 5 cs)) (map (map of_char) month_abbr) of
                None \<Rightarrow> Inl ValueError
              | Some i \<Rightarrow>
                  (let year = foldl (\<lambda>a c. 10 * a + the (decimal_digit c)) 0 (take 4 cs)
                   in if year < 1 then Inl ValueError else Inr (year, Suc i, 1)))
           else Inl ValueError)
      | _ \<Rightarrow> Inl TypeError)"

text \<open>Decimal digits of ASCII, for the date texts below.\<close>

definition is_digit :: "char \<Rightarrow> bool" where
  "is_digit c = (48 \<le> (of_char c :: nat) \<and> (of_char c :: nat) \<le> 57)"

definition digit_val :: "char \<Rightarrow> nat" where
  "digit_val c = of_char c - 48"

text \<open>
  An instance of the date parser, for the text of a date property that carries no time:
  a calendar date written \<^verbatim>\<open>YYYY-MM-DD\<close>. Any other text is rejected by this instance.
\<close>

fun to_datetime_iso :: "json \<Rightarrow> error + date" where
  "to_datetime_iso (JStr [y1, y2, y3, y4, h1, m1, m2, h2, d1, d2]) =
     (if is_digit y1 \<and> is_digit y2 \<and> is_digit y3 \<and> is_digit y4 \<and> h1 = CHR ''-'' \<and>
         is_digit m1 \<and> is_digit m2 \<and> h2 = CHR ''-'' \<and> is_digit d1 \<and> is_digit d2 then
        (let d = (1000 * digit_val y1 + 100 * digit_val y2 + 10 * digit_val y3 + digit_val y4,
                  10 * digit_val m1 + digit_val m2,
                  10 * digit_val d1 + digit_val d2)
         in if valid_date d then Inr d else Inl ValueError)
      else Inl ValueError)"
| "to_datetime_iso (JStr s) = Inl ValueError"
| "to_datetime_iso _ = Inl TypeError"

definition goal_time_of :: "json \<Rightarrow> error + json" where
  "goal_time_of goal_prop =
     (if \<not> truthy goal_prop then Inr (JNum 0)
      else bind_result (getitem goal_prop ''type'') (\<lambda>ty.
        if ty \<noteq> JStr ''number'' then Inr (JNum 0)
        else bind_result (getitem goal_prop ''number'') (\<lambda>n. mul60 (py_or n (JNum 0)))))"

text \<open>A row of the goal frame: the columns Month and GoalTime.\<close>

record 'a goal_row =
  Month :: date
  GoalTime :: 'a

text \<open>
  The loop body of \<^verbatim>\<open>process_goal_data\<close>. The \<^verbatim>\<open>try\<close> around \<^verbatim>\<open>strptime\<close> catches
  \<^verbatim>\<open>ValueError\<close> only.
\<close>

definition goal_page :: "json \<Rightarrow> error + json goal_row option" where
  "goal_page page =
     bind_result (getitem page ''properties'') (\<lambda>props.
     bind_result (dict_get props PROPERTY_MONTH_TITLE (JObj [])) (\<lambda>month_prop.
       if \<not> truthy month_prop then Inr None
       else bind_result (getitem month_prop ''title'') (\<lambda>title.
         if \<not> truthy title then Inr None
         else bind_result (getitem0 title) (\<lambda>t0.
           bind_result (getitem t0 ''text'') (\<lambda>txt.
           bind_result (getitem txt ''content'') (\<lambda>month_str.
           bind_result (dict_get props PROPERTY_GOAL_TIME (JObj [])) (\<lambda>goal_prop.
           bind_result (goal_time_of goal_prop) (\<lambda>goal_time.
             (case strptime_Y_b month_str of
                Inr date_obj \<Rightarrow> Inr (Some \<lparr>Month = date_obj, GoalTime = goal_time\<rparr>)
              | Inl ValueError \<Rightarrow> Inr None
              | Inl e \<Rightarrow> Inl e)))))))))"

fun process_goal_loop ::
  "json list \<Rightarrow> json goal_row list \<Rightarrow> error + json goal_row list" where
  "process_goal_loop [] data = Inr data"
| "process_goal_loop (page # results) data =
     (case goal_page page of
        Inl e \<Rightarrow> Inl e
      | Inr None \<Rightarrow> process_goal_loop results data
      | Inr (Some row) \<Rightarrow> process_goal_loop results (data @ [row]))"

definition process_goal_data :: "json list \<Rightarrow> error + json goal_row list" where
  "process_goal_data results = process_goal_loop results []"

section \<open>The daily series (app.py, \<^verbatim>\<open>analyze_data\<close>)\<close>

subsection \<open>The operations of the frame library\<close>

text \<open>
  The day after a date, and the run of days from one date to another, both ends
  included: the bins of \<^verbatim>\<open>resample("D")\<close>.
\<close>

definition next_day :: "date \<Rightarrow> date" where
  "next_day d =
     (if day_of d < days_in_month (year_of d) (month_of d)
        then (year_of d, month_of d, day_of d + 1)
      else if month_of d < 12 then (year_of d, month_of d + 1, 1)
      else (year_of d + 1, 1, 1))"

function date_range :: "date \<Rightarrow> date \<Rightarrow> date list" where
  "date_range cur end_date =
     (if cur \<le> end_date then cur # date_range (next_day cur) end_date else [])"
  by pat_completeness auto
termination
  by (relation "measures [\<lambda>(cur, end_date). year_of end_date + 1 - year_of cur,
                           \<lambda>(cur, end_date). 12 - month_of cur,
                           \<lambda>(cur, end_date). 31 - day_of cur]")
     (auto simp: next_day_def year_of_def month_of_def day_of_def days_in_month_def
                 less_eq_prod_def split: if_splits)

declare date_range.simps [simp del]

text \<open>
  \<^verbatim>\<open>df.sort_values("Date")\<close>, then \<^verbatim>\<open>set_index("Date").resample("D").sum().fillna(0)\<close>
  on a frame that is not empty: one row for each day from the earliest to the latest
  date, holding the sum of the values logged on that day (the sum of no value is 0, so
  that \<^verbatim>\<open>fillna\<close> finds nothing to fill).
\<close>

definition sort_values :: "(date \<times> rat) list \<Rightarrow> (date \<times> rat) list" where
  "sort_values df = sort_key fst df"

definition resample_D_sum :: "(date \<times> rat) list \<Rightarrow> (date \<times> rat) list" where
  "resample_D_sum df =
     map (\<lambda>d. (d, sum_list (map snd (filter (\<lambda>r. fst r = d) df))))
         (date_range (fst (hd df)) (fst (last df)))"

text \<open>
  \<^verbatim>\<open>cumsum\<close>: the running total, carried along the column. The totals here are exact.
  A column of the program whose values are all integers holds 64-bit integers, and its
  sums wrap around beyond \<open>2 ^ 63 - 1\<close>; the order of totals is therefore stated below
  only for columns whose totals stay in that range.
\<close>

fun cumsum_from :: "rat \<Rightarrow> rat list \<Rightarrow> rat list" where
  "cumsum_from acc [] = []"
| "cumsum_from acc (x # xs) = (acc + x) # cumsum_from (acc + x) xs"

definition cumsum :: "rat list \<Rightarrow> rat list" where
  "cumsum xs = cumsum_from 0 xs"

text \<open>
  \<^verbatim>\<open>rolling(window=w, min_periods=minp).mean()\<close>, computed as the library does: one pass
  that carries the sum and the number of the values in the window; at index \<open>i\<close> the
  value that leaves the window (the one at \<open>i - w\<close>) is subtracted and the one at \<open>i\<close>
  added. The mean is missing (\<open>None\<close>) while fewer than \<open>minp\<close> values are in the window.
\<close>

definition calc_mean :: "nat \<Rightarrow> nat \<Rightarrow> rat \<Rightarrow> rat option" where
  "calc_mean minp nobs sum_x =
     (if minp \<le> nobs \<and> 0 < nobs then Some (sum_x / of_nat nobs) else None)"

fun roll_mean_loop ::
  "nat \<Rightarrow> nat \<Rightarrow> rat list \<Rightarrow> nat \<Rightarrow> rat \<Rightarrow> nat \<Rightarrow> rat list \<Rightarrow> rat option list" where
  "roll_mean_loop w minp xs i sum_x nobs [] = []"
| "roll_mean_loop w minp xs i sum_x nobs (x # rest) =
     (let s1 = (if w \<le> i then sum_x - xs ! (i - w) else sum_x);
          n1 = (if w \<le> i then nobs - 1 else nobs);
          s2 = s1 + x;
          n2 = n1 + 1
      in calc_mean minp n2 s2 # roll_mean_loop w minp xs (i + 1) s2 n2 rest)"

definition rolling_mean :: "nat \<Rightarrow> nat \<Rightarrow> rat list \<Rightarrow> rat option list" where
  "rolling_mean w minp xs = roll_mean_loop w minp xs 0 0 0 xs"

subsection \<open>\<^verbatim>\<open>analyze_data\<close>\<close>

record daily_row =
  Date :: date
  LearningTime :: rat
  Cumulative_Time :: rat
  Moving_Avg_60d :: "rat option"

definition analyze_data :: "(date \<times> rat) list \<Rightarrow> daily_row list" where
  "analyze_data df =
     (if df = [] then []
      else
        (let df_daily = resample_D_sum (sort_values df);
             cumulative = cumsum (map snd df_daily);
             moving_avg = rolling_mean 60 1 (map snd df_daily)
         in map (\<lambda>((d, m), c, a).
                   \<lparr>Date = d, LearningTime = m, Cumulative_Time = c, Moving_Avg_60d = a\<rparr>)
                (zip df_daily (zip cumulative moving_avg))))"

section \<open>The month view (app.py, \<^verbatim>\<open>main\<close>)\<close>

text \<open>
  \<open>current_month_start\<close> is the first day of the selected month. The start of the next
  month is that date with the month (and in December the year) replaced; for the first day
  of a month this replacement cannot raise. Years are not bounded here as those of
  \<^verbatim>\<open>datetime\<close> are.
\<close>

definition next_month_start :: "date \<Rightarrow> date" where
  "next_month_start current_month_start =
     (if month_of current_month_start = 12
        then (year_of current_month_start + 1, 1, day_of current_month_start)
      else (year_of current_month_start, month_of current_month_start + 1,
            day_of current_month_start))"

record month_row = daily_row +
  Monthly_Cumulative :: rat

text \<open>
  The rows of the selected month, with the cumulative sum taken again over these rows
  only. A month without rows gives the empty frame.
\<close>

definition month_filter :: "daily_row list \<Rightarrow> date \<Rightarrow> daily_row list" where
  "month_filter df current_month_start =
     filter (\<lambda>r. current_month_start \<le> Date r \<and> Date r < next_month_start current_month_start) df"

definition with_monthly_cumulative :: "daily_row list \<Rightarrow> month_row list" where
  "with_monthly_cumulative rows =
     map (\<lambda>(r, c). \<lparr>Date = Date r, LearningTime = LearningTime r,
                    Cumulative_Time = Cumulative_Time r, Moving_Avg_60d = Moving_Avg_60d r,
                    Monthly_Cumulative = c\<rparr>)
         (zip rows (cumsum (map LearningTime rows)))"

definition df_month :: "daily_row list \<Rightarrow> date \<Rightarrow> month_row list" where
  "df_month df current_month_start =
     (let sel = month_filter df current_month_start
      in if sel \<noteq> [] then with_monthly_cumulative sel else [])"

subsection \<open>The target line\<close>

text \<open>The goal of the selected month: the first matching row of the goal frame, else 0.\<close>

definition current_goal_minutes :: "rat goal_row list \<Rightarrow> date \<Rightarrow> rat" where
  "current_goal_minutes goal_df current_month_start =
     (if goal_df = [] then 0
      else (case filter (\<lambda>g. Month g = current_month_start) goal_df of
              [] \<Rightarrow> 0
            | g # gs \<Rightarrow> GoalTime g))"

text \<open>\<^verbatim>\<open>d.replace(day=n)\<close>; \<open>None\<close> is the \<^verbatim>\<open>ValueError\<close> for a day the month does not have.\<close>

definition replace_day :: "date \<Rightarrow> nat \<Rightarrow> date option" where
  "replace_day d n =
     (if 1 \<le> n \<and> n \<le> days_in_month (year_of d) (month_of d)
      then Some (year_of d, month_of d, n) else None)"

fun target_loop :: "date \<Rightarrow> rat \<Rightarrow> nat \<Rightarrow> nat list \<Rightarrow> (date \<times> rat) list" where
  "target_loop current_month_start goal days_in_mon [] = []"
| "target_loop current_month_start goal days_in_mon (day # days) =
     (case replace_day current_month_start day of
        None \<Rightarrow> target_loop current_month_start goal days_in_mon days
      | Some date_val \<Rightarrow>
          (date_val, goal * (of_nat day / of_nat days_in_mon))
            # target_loop current_month_start goal days_in_mon days)"

definition target_data :: "rat goal_row list \<Rightarrow> date \<Rightarrow> (date \<times> rat) list" where
  "target_data goal_df current_month_start =
     (let goal = current_goal_minutes goal_df current_month_start
      in if goal > 0 then
           (let days_in_mon =
                  days_in_month (year_of current_month_start) (month_of current_month_start)
            in target_loop current_month_start goal days_in_mon [1..<days_in_mon + 1])
         else [])"

subsection \<open>The display domain of the moving average\<close>

definition dropna :: "'a option list \<Rightarrow> 'a list" where
  "dropna xs = List.map_filter id xs"

text \<open>Minimum and maximum of a series that is not empty.\<close>

definition series_min :: "rat list \<Rightarrow> rat" where
  "series_min xs = fold min (tl xs) (hd xs)"

definition series_max :: "rat list \<Rightarrow> rat" where
  "series_max xs = fold max (tl xs) (hd xs)"

definition ma_domain :: "month_row list \<Rightarrow> rat \<times> rat" where
  "ma_domain dfm =
     (let ma_series = dropna (map Moving_Avg_60d dfm)
      in if ma_series \<noteq> [] then
           (let min_ma = series_min ma_series;
                max_ma = series_max ma_series;
                padding = (max_ma - min_ma) * (2 / 10);
                padding = (if padding = 0 then 20 else padding)
            in (max 0 (min_ma - padding), max_ma + padding))
         else (0, 300))"

section \<open>The rows of the current month (generate_chart.py, \<^verbatim>\<open>process_data\<close>)\<close>

text \<open>
  \<^verbatim>\<open>strftime("%Y-%m")\<close>: the year in decimal, padded with zeros to four digits, a hyphen,
  and the month in two digits.
\<close>

definition digit_char :: "nat \<Rightarrow> char" where
  "digit_char k = char_of (48 + k)"

fun digits :: "nat \<Rightarrow> string" where
  "digits n = (if n < 10 then [digit_char n] else digits (n div 10) @ [digit_char (n mod 10)])"

declare digits.simps [simp del]

definition zero_pad :: "nat \<Rightarrow> string \<Rightarrow> string" where
  "zero_pad w s = replicate (w - length s) (CHR ''0'') @ s"

text \<open>The number that a string of decimal digits denotes.\<close>

definition decimal_value :: "string \<Rightarrow> nat" where
  "decimal_value s = foldl (\<lambda>a c. 10 * a + digit_val c) 0 s"

definition strftime_Y_m :: "date \<Rightarrow> string" where
  "strftime_Y_m d = zero_pad 4 (digits (year_of d)) @ ''-'' @ zero_pad 2 (digits (month_of d))"

record chart_row =
  date :: date
  minutes :: rat
  moving_avg_60d :: "rat option"
  monthly_cumulative :: rat

text \<open>
  \<^verbatim>\<open>process_data\<close> receives the frame of (date string, minutes) built by the fetch and
  the clock reading \<open>now\<close> of \<^verbatim>\<open>datetime.now()\<close>, of which only the date matters. The
  date strings are converted first; the rows of the current month are those whose
  formatted date equals the formatted \<open>now\<close>.
\<close>

definition process_data ::
  "(json \<Rightarrow> error + date) \<Rightarrow> date \<Rightarrow> (json \<times> rat) list \<Rightarrow> error + chart_row list" where
  "process_data to_datetime now df =
     (if df = [] then Inr []
      else bind_result (to_datetime_col to_datetime df) (\<lambda>df.
        (let df_daily = resample_D_sum (sort_values df);
             moving_avg = rolling_mean 60 1 (map snd df_daily);
             current_month_str = strftime_Y_m now;
             df_current_month =
               filter (\<lambda>((d, m), a). strftime_Y_m d = current_month_str)
                      (zip df_daily moving_avg);
             monthly = cumsum (map (\<lambda>((d, m), a). m) df_current_month)
         in Inr (map (\<lambda>(((d, m), a), c).
                        \<lparr>date = d, minutes = m, moving_avg_60d = a, monthly_cumulative = c\<rparr>)
                     (zip df_current_month monthly)))))"

section \<open>Properties of the frame operations\<close>

lemma length_cumsum_from: "length (cumsum_from acc xs) = length xs"
  by (induction xs arbitrary: acc) auto

lemma cumsum_from_nth:
  "i < length xs \<Longrightarrow> cumsum_from acc xs ! i = acc + sum_list (take (Suc i) xs)"
proof (induction xs arbitrary: acc i)
  case Nil
  then show ?case by simp
next
  case (Cons x xs)
  then show ?case by (cases i) (auto simp: add.assoc)
qed

lemma length_roll_mean_loop:
  "length (roll_mean_loop w minp xs i s n rest) = length rest"
  by (induction rest arbitrary: i s n) (auto simp: Let_def)

lemma window_step:
  assumes "0 < w" "i < length (xs :: rat list)"
  shows "(if w \<le> i then sum_list (drop (i - w) (take i xs)) - xs ! (i - w)
          else sum_list (drop (i - w) (take i xs))) + xs ! i
         = sum_list (drop (Suc i - w) (take (Suc i) xs))"
proof -
  have t: "take (Suc i) xs = take i xs @ [xs ! i]"
    using assms by (simp add: take_Suc_conv_app_nth)
  have le: "Suc i - w \<le> length (take i xs)" using assms by simp
  have d: "drop (Suc i - w) (take (Suc i) xs) = drop (Suc i - w) (take i xs) @ [xs ! i]"
    using assms by (simp add: t min_def)
  show ?thesis
  proof (cases "w \<le> i")
    case True
    then have lt: "i - w < length (take i xs)" using assms by simp
    have "drop (i - w) (take i xs) = take i xs ! (i - w) # drop (Suc (i - w)) (take i xs)"
      by (rule Cons_nth_drop_Suc[OF lt, symmetric])
    moreover have "take i xs ! (i - w) = xs ! (i - w)" using True assms by simp
    moreover have "Suc (i - w) = Suc i - w" using True by simp
    ultimately show ?thesis using True d by simp
  next
    case False
    then have "i - w = 0" "Suc i - w = 0" by simp_all
    then show ?thesis using False d by simp
  qed
qed

lemma roll_mean_loop_eq:
  assumes "0 < w" "rest = drop i xs" "sum_x = sum_list (drop (i - w) (take i xs))"
    "nobs = min i w"
  shows "roll_mean_loop w minp xs i sum_x nobs rest =
         map (\<lambda>j. calc_mean minp (min (Suc j) w)
                     (sum_list (drop (Suc j - w) (take (Suc j) xs))))
             [i..<length xs]"
  using assms
proof (induction rest arbitrary: i sum_x nobs)
  case Nil
  then show ?case by simp
next
  case (Cons x rest)
  from Cons.prems(2) have i: "i < length xs"
    by (metis drop_all list.distinct(1) not_le)
  have x: "x = xs ! i" and r: "rest = drop (Suc i) xs"
    using Cons.prems(2) i by (simp_all add: Cons_nth_drop_Suc[symmetric])
  let ?s2 = "(if w \<le> i then sum_x - xs ! (i - w) else sum_x) + x"
  let ?n2 = "(if w \<le> i then nobs - 1 else nobs) + 1"
  have s2: "?s2 = sum_list (drop (Suc i - w) (take (Suc i) xs))"
    using window_step[OF Cons.prems(1) i] Cons.prems(3) x by (cases "w \<le> i") simp_all
  have n2: "?n2 = min (Suc i) w"
    using Cons.prems(1,4) by (auto simp: min_def)
  have IH: "roll_mean_loop w minp xs (Suc i) ?s2 ?n2 rest =
         map (\<lambda>j. calc_mean minp (min (Suc j) w)
                     (sum_list (drop (Suc j - w) (take (Suc j) xs))))
             [Suc i..<length xs]"
    by (rule Cons.IH[OF Cons.prems(1) r s2 n2])
  show ?case
    using IH i s2 n2 by (simp add: Let_def upt_conv_Cons del: upt_Suc)
qed

lemma sum_list_drop_take:
  assumes "b \<le> length (xs :: rat list)"
  shows "sum_list (drop a (take b xs)) = (\<Sum>j = a..<b. xs ! j)"
proof (cases "a \<le> b")
  case True
  have "sum_list (drop a (take b xs)) = (\<Sum>k = 0..<b - a. xs ! (k + a))"
    using assms True by (simp add: sum_list_sum_nth min_def add.commute)
  also have "\<dots> = (\<Sum>j = 0 + a..<(b - a) + a. xs ! j)"
    by (rule sum.shift_bounds_nat_ivl[symmetric])
  finally show ?thesis using True by simp
next
  case False
  then show ?thesis using assms by simp
qed

lemma length_cumsum: "length (cumsum xs) = length xs"
  by (simp add: cumsum_def length_cumsum_from)

lemma length_rolling_mean: "length (rolling_mean w minp xs) = length xs"
  by (simp add: rolling_mean_def length_roll_mean_loop)

lemma rolling_mean_nth:
  assumes "0 < w" "i < length xs"
  shows "rolling_mean w minp xs ! i =
         calc_mean minp (min (Suc i) w) (\<Sum>j = Suc i - w..<Suc i. xs ! j)"
proof -
  have "rolling_mean w minp xs =
        map (\<lambda>j. calc_mean minp (min (Suc j) w)
                     (sum_list (drop (Suc j - w) (take (Suc j) xs))))
            [0..<length xs]"
    unfolding rolling_mean_def using assms(1) by (intro roll_mean_loop_eq) simp_all
  then show ?thesis using assms(2) by (simp add: sum_list_drop_take)
qed

lemma cumsum_nth:
  "i < length xs \<Longrightarrow> cumsum xs ! i = (\<Sum>j = 0..<Suc i. xs ! j)"
  using sum_list_drop_take[of "Suc i" xs 0]
  by (simp add: cumsum_def cumsum_from_nth del: sum.op_ivl_Suc)


lemma length_analyze_data:
  "df \<noteq> [] \<Longrightarrow> length (analyze_data df) = length (resample_D_sum (sort_values df))"
  by (simp add: analyze_data_def Let_def length_cumsum length_rolling_mean)

lemma analyze_data_nth:
  assumes "df \<noteq> []" "i < length (resample_D_sum (sort_values df))"
  shows "analyze_data df ! i =
         \<lparr>Date = fst (resample_D_sum (sort_values df) ! i),
          LearningTime = snd (resample_D_sum (sort_values df) ! i),
          Cumulative_Time = cumsum (map snd (resample_D_sum (sort_values df))) ! i,
          Moving_Avg_60d = rolling_mean 60 1 (map snd (resample_D_sum (sort_values df))) ! i\<rparr>"
  using assms
  by (simp add: analyze_data_def Let_def length_cumsum length_rolling_mean case_prod_beta)

lemma sum_filter_insort_key:
  "sum_list (map snd (filter P (insort_key fst x xs))) =
   (if P x then snd x else (0::rat)) + sum_list (map snd (filter P xs))"
  by (induction xs) auto

lemma sum_filter_sort_values:
  "sum_list (map snd (filter P (sort_values df))) = sum_list (map snd (filter P df))"
  unfolding sort_values_def
  by (induction df) (simp_all add: sum_filter_insort_key)

lemma resample_D_sum_nth:
  assumes "i < length (resample_D_sum df)"
  shows "snd (resample_D_sum df ! i) =
         sum_list (map snd (filter (\<lambda>r. fst r = fst (resample_D_sum df ! i)) df))"
  using assms by (simp add: resample_D_sum_def)

lemma analyze_data_minutes:
  assumes "i < length (analyze_data df)"
  shows "LearningTime (analyze_data df ! i) =
         sum_list (map snd (filter (\<lambda>r. fst r = Date (analyze_data df ! i)) df))"
proof -
  from assms have ne: "df \<noteq> []" by (auto simp: analyze_data_def)
  have i: "i < length (resample_D_sum (sort_values df))"
    using assms length_analyze_data[OF ne] by simp
  show ?thesis
    using resample_D_sum_nth[OF i]
    by (simp add: analyze_data_nth[OF ne i] sum_filter_sort_values)
qed

lemma analyze_data_cumulative:
  assumes "i < length (analyze_data df)"
  shows "Cumulative_Time (analyze_data df ! i) =
         (\<Sum>j = 0..i. LearningTime (analyze_data df ! j))"
proof -
  let ?dd = "resample_D_sum (sort_values df)"
  from assms have ne: "df \<noteq> []" by (auto simp: analyze_data_def)
  have i: "i < length ?dd"
    using assms length_analyze_data[OF ne] by simp
  have "Cumulative_Time (analyze_data df ! i) = (\<Sum>j = 0..<Suc i. map snd ?dd ! j)"
    using i by (simp add: analyze_data_nth[OF ne i] cumsum_nth del: sum.op_ivl_Suc)
  also have "\<dots> = (\<Sum>j = 0..<Suc i. LearningTime (analyze_data df ! j))"
  proof (rule sum.cong[OF refl])
    fix j assume "j \<in> {0..<Suc i}"
    then have j: "j < length ?dd" using i by simp
    show "map snd ?dd ! j = LearningTime (analyze_data df ! j)"
      by (simp add: analyze_data_nth[OF ne j] j)
  qed
  finally show ?thesis by (simp add: atLeastLessThanSuc_atLeastAtMost)
qed

lemma analyze_data_minutes_nonneg:
  assumes "\<forall>r \<in> set df. 0 \<le> snd r" "i < length (analyze_data df)"
  shows "0 \<le> LearningTime (analyze_data df ! i)"
  unfolding analyze_data_minutes[OF assms(2)]
  using assms(1) by (intro sum_list_nonneg) auto

lemma series_min_Min: "xs \<noteq> [] \<Longrightarrow> series_min xs = Min (set xs)"
proof (cases xs)
  case (Cons a list)
  then show ?thesis using Min.set_eq_fold[of a list] by (simp add: series_min_def)
qed simp

lemma series_max_Max: "xs \<noteq> [] \<Longrightarrow> series_max xs = Max (set xs)"
proof (cases xs)
  case (Cons a list)
  then show ?thesis using Max.set_eq_fold[of a list] by (simp add: series_max_def)
qed simp

subsection \<open>The loop bodies of the normaliser\<close>










lemma decimal_digit_ascii: "48 \<le> c \<Longrightarrow> c \<le> 57 \<Longrightarrow> decimal_digit c = Some (c - 48)"
  by (simp add: decimal_digit_def decimal_digit_zeros_def)

lemma decimal_digit_fullwidth:
  "0xFF10 \<le> c \<Longrightarrow> c \<le> 0xFF19 \<Longrightarrow> decimal_digit c = Some (c - 0xFF10)"
  by (simp add: decimal_digit_def decimal_digit_zeros_def)

lemmas strptime_eval =
  strptime_Y_b_def code_points.simps utf8_len_def decimal_digit_ascii decimal_digit_fullwidth
  lower_def month_abbr_def





subsection \<open>The target loop\<close>

lemma target_loop_all_days:
  assumes "\<forall>d \<in> set days. 1 \<le> d \<and> d \<le> days_in_month (year_of cms) (month_of cms)"
  shows "target_loop cms goal n days =
         map (\<lambda>d. ((year_of cms, month_of cms, d), goal * (of_nat d / of_nat n))) days"
  using assms by (induction days) (auto simp: replace_day_def)

lemma days_in_month_pos: "0 < days_in_month y m"
  by (simp add: days_in_month_def)

lemma target_data_positive:
  assumes "0 < current_goal_minutes goal_df cms"
  shows "target_data goal_df cms =
         map (\<lambda>d. ((year_of cms, month_of cms, d),
                    current_goal_minutes goal_df cms *
                      (of_nat d / of_nat (days_in_month (year_of cms) (month_of cms)))))
             [1..<days_in_month (year_of cms) (month_of cms) + 1]"
  using assms by (simp add: target_data_def Let_def target_loop_all_days)

lemma target_values_increasing:
  assumes "(0::rat) < g" "0 < n"
  shows "sorted_wrt (<) (map (\<lambda>d. g * (of_nat d / of_nat n)) [a..<b])"
proof -
  have "sorted_wrt (\<lambda>x y. g * (of_nat x / of_nat n) < g * (of_nat y / of_nat n)) [a..<b]"
  proof (rule sorted_wrt_mono_rel[of _ "(<)"])
    show "sorted_wrt (<) [a..<b]" by simp
    fix x y :: nat assume "x < y"
    then show "g * (of_nat x / of_nat n) < g * (of_nat y / of_nat n)"
      using assms by (simp add: divide_strict_right_mono)
  qed
  then show ?thesis by (simp add: sorted_wrt_map)
qed

subsection \<open>The run of days\<close>

lemma less_next_day: "d < next_day d"
  by (cases d) (auto simp: next_day_def year_of_def month_of_def day_of_def less_prod_def)

lemma date_range_lower: "x \<in> set (date_range a b) \<Longrightarrow> a \<le> x"
proof (induction a b rule: date_range.induct)
  case (1 cur end_date)
  show ?case
  proof (cases "cur \<le> end_date")
    case True
    with "1.prems" have "x = cur \<or> x \<in> set (date_range (next_day cur) end_date)"
      by (subst (asm) date_range.simps) simp
    then show ?thesis
    proof
      assume "x \<in> set (date_range (next_day cur) end_date)"
      with "1.IH"[OF True] have "next_day cur \<le> x" by simp
      with less_next_day[of cur] show ?thesis by simp
    qed simp
  next
    case False
    with "1.prems" show ?thesis by (subst (asm) date_range.simps) simp
  qed
qed

lemma sorted_date_range: "sorted_wrt (<) (date_range a b)"
proof (induction a b rule: date_range.induct)
  case (1 cur end_date)
  show ?case
  proof (cases "cur \<le> end_date")
    case True
    have "\<forall>x \<in> set (date_range (next_day cur) end_date). cur < x"
      using date_range_lower less_next_day[of cur] by (meson less_le_trans)
    with "1.IH"[OF True] True show ?thesis
      by (subst date_range.simps) simp
  next
    case False
    then show ?thesis by (subst date_range.simps) simp
  qed
qed

lemma valid_next_day: "valid_date d \<Longrightarrow> valid_date (next_day d)"
  by (cases d)
     (auto simp: valid_date_def next_day_def year_of_def month_of_def day_of_def
                 days_in_month_def split: if_splits)

lemma valid_date_range:
  "valid_date a \<Longrightarrow> x \<in> set (date_range a b) \<Longrightarrow> valid_date x"
proof (induction a b rule: date_range.induct)
  case (1 cur end_date)
  show ?case
  proof (cases "cur \<le> end_date")
    case True
    with "1.prems"(2) have "x = cur \<or> x \<in> set (date_range (next_day cur) end_date)"
      by (subst (asm) date_range.simps) simp
    then show ?thesis
      using "1.IH"[OF True valid_next_day[OF "1.prems"(1)]] "1.prems"(1) by blast
  next
    case False
    with "1.prems"(2) show ?thesis by (subst (asm) date_range.simps) simp
  qed
qed

subsection \<open>Formatted months\<close>

lemma digit_val_digit_char: "k < 10 \<Longrightarrow> digit_val (digit_char k) = k"
  by (simp add: digit_val_def digit_char_def)

lemma decimal_value_snoc:
  "decimal_value (s @ [c]) = 10 * decimal_value s + digit_val c"
  by (simp add: decimal_value_def)

lemma decimal_value_digits: "decimal_value (digits n) = n"
proof (induction n rule: digits.induct)
  case (1 n)
  show ?case
  proof (cases "n < 10")
    case True
    then show ?thesis
      by (subst digits.simps) (simp add: decimal_value_def digit_val_digit_char)
  next
    case False
    then show ?thesis
      using "1.IH" by (subst digits.simps) (simp add: decimal_value_snoc digit_val_digit_char)
  qed
qed

lemma decimal_value_zeros:
  "decimal_value (replicate k (CHR ''0'') @ s) = decimal_value s"
proof -
  have "foldl (\<lambda>a c. 10 * a + digit_val c) 0 (replicate k (CHR ''0'')) = 0"
    by (induction k) (simp_all add: digit_val_def)
  then show ?thesis by (simp add: decimal_value_def)
qed

lemma decimal_value_zero_pad: "decimal_value (zero_pad w (digits n)) = n"
  by (simp add: zero_pad_def decimal_value_zeros decimal_value_digits)

lemma length_digits_small:
  assumes "n < 100"
  shows "length (digits n) \<le> 2"
proof -
  have "n div 10 < 10" using assms by simp
  then have "length (digits (n div 10)) = 1" by (subst digits.simps) simp
  then show ?thesis by (subst digits.simps) simp
qed

lemma length_zero_pad_month: "n < 100 \<Longrightarrow> length (zero_pad 2 (digits n)) = 2"
  using length_digits_small[of n] by (simp add: zero_pad_def)

lemma strftime_Y_m_eq_iff:
  assumes "month_of d < 100" "month_of e < 100"
  shows "strftime_Y_m d = strftime_Y_m e \<longleftrightarrow> year_of d = year_of e \<and> month_of d = month_of e"
proof
  assume eq: "strftime_Y_m d = strftime_Y_m e"
  have len: "length (''-'' @ zero_pad 2 (digits (month_of d))) =
             length (''-'' @ zero_pad 2 (digits (month_of e)))"
    using assms by (simp add: length_zero_pad_month)
  from eq have "zero_pad 4 (digits (year_of d)) = zero_pad 4 (digits (year_of e)) \<and>
        ''-'' @ zero_pad 2 (digits (month_of d)) = ''-'' @ zero_pad 2 (digits (month_of e))"
    unfolding strftime_Y_m_def using len by (subst (asm) append_eq_append_conv) auto
  then have "decimal_value (zero_pad 4 (digits (year_of d))) =
             decimal_value (zero_pad 4 (digits (year_of e)))"
    and "decimal_value (zero_pad 2 (digits (month_of d))) =
         decimal_value (zero_pad 2 (digits (month_of e)))"
    by simp_all
  then show "year_of d = year_of e \<and> month_of d = month_of e"
    by (simp add: decimal_value_zero_pad)
next
  assume "year_of d = year_of e \<and> month_of d = month_of e"
  then show "strftime_Y_m d = strftime_Y_m e" by (simp add: strftime_Y_m_def)
qed

lemma in_month_iff:
  assumes "valid_date d" "1 \<le> m" "m \<le> 12"
  shows "(y, m, 1) \<le> d \<and> d < next_month_start (y, m, 1) \<longleftrightarrow> year_of d = y \<and> month_of d = m"
  using assms
  by (cases d)
     (auto simp: valid_date_def next_month_start_def year_of_def month_of_def day_of_def
                 less_eq_prod_def less_prod_def)

lemma month_filter_iff:
  assumes "valid_date d" "1 \<le> m" "m \<le> 12" "year_of now = y" "month_of now = m"
  shows "(y, m, 1) \<le> d \<and> d < next_month_start (y, m, 1) \<longleftrightarrow>
         strftime_Y_m d = strftime_Y_m now"
proof -
  have "month_of d < 100" using assms(1) by (simp add: valid_date_def)
  moreover have "month_of now < 100" using assms(3,5) by simp
  ultimately show ?thesis
    using in_month_iff[OF assms(1-3), of y] assms(4,5) by (simp add: strftime_Y_m_eq_iff)
qed

subsection \<open>Dates of the daily series and month slices\<close>

lemma analyze_data_dates:
  assumes "df \<noteq> []"
  shows "map Date (analyze_data df) =
         date_range (fst (hd (sort_values df))) (fst (last (sort_values df)))"
proof (rule nth_equalityI)
  show len: "length (map Date (analyze_data df)) =
        length (date_range (fst (hd (sort_values df))) (fst (last (sort_values df))))"
    by (simp add: length_analyze_data[OF assms] resample_D_sum_def)
  fix i assume "i < length (map Date (analyze_data df))"
  then have i: "i < length (resample_D_sum (sort_values df))"
    by (simp add: length_analyze_data[OF assms])
  then show "map Date (analyze_data df) ! i =
        date_range (fst (hd (sort_values df))) (fst (last (sort_values df))) ! i"
    using analyze_data_nth[OF assms i] by (simp add: length_analyze_data[OF assms] resample_D_sum_def)
qed

lemma sorted_analyze_data: "sorted_wrt (<) (map Date (analyze_data df))"
proof (cases "df = []")
  case True
  then show ?thesis by (simp add: analyze_data_def)
next
  case False
  then show ?thesis by (simp add: analyze_data_dates sorted_date_range)
qed

lemma valid_analyze_data:
  assumes "\<forall>r \<in> set df. valid_date (fst r)" "r \<in> set (analyze_data df)"
  shows "valid_date (Date r)"
proof -
  from assms(2) have ne: "df \<noteq> []" by (auto simp: analyze_data_def)
  then have "sort_values df \<noteq> []"
    by (metis length_0_conv length_sort sort_values_def)
  then have "hd (sort_values df) \<in> set (sort_values df)" by simp
  then have "hd (sort_values df) \<in> set df" by (simp add: sort_values_def)
  then have v: "valid_date (fst (hd (sort_values df)))" using assms(1) by blast
  have "Date r \<in> set (map Date (analyze_data df))" using assms(2) by simp
  then show ?thesis
    unfolding analyze_data_dates[OF ne] by (rule valid_date_range[OF v])
qed

lemma sorted_split:
  fixes key :: "'a \<Rightarrow> 'b::linorder"
  assumes "sorted_wrt (<) (map key xs)"
  shows "xs = filter (\<lambda>r. key r < t) xs @ filter (\<lambda>r. t \<le> key r) xs"
  using assms
proof (induction xs)
  case Nil
  then show ?case by simp
next
  case (Cons x xs)
  then have IH: "xs = filter (\<lambda>r. key r < t) xs @ filter (\<lambda>r. t \<le> key r) xs"
    and gt: "\<forall>r \<in> set xs. key x < key r"
    by simp_all
  show ?case
  proof (cases "key x < t")
    case True
    then show ?thesis using IH by simp
  next
    case False
    then have "\<forall>r \<in> set xs. t \<le> key r" using gt by auto
    then have "filter (\<lambda>r. key r < t) xs = []" "filter (\<lambda>r. t \<le> key r) xs = xs"
      by (auto simp: filter_empty_conv)
    then show ?thesis using False by simp
  qed
qed

lemma sorted_interval_split:
  fixes key :: "'a \<Rightarrow> 'b::linorder"
  assumes "sorted_wrt (<) (map key xs)"
  shows "\<exists>post. xs = filter (\<lambda>r. key r < lo) xs @
                     filter (\<lambda>r. lo \<le> key r \<and> key r < hi) xs @ post"
proof -
  let ?B = "filter (\<lambda>r. lo \<le> key r) xs"
  have "sorted_wrt (<) (map key ?B)"
    using assms by (simp add: sorted_wrt_map sorted_wrt_filter)
  then have B: "?B = filter (\<lambda>r. key r < hi) ?B @ filter (\<lambda>r. hi \<le> key r) ?B"
    by (rule sorted_split)
  have f: "filter (\<lambda>r. key r < hi) ?B = filter (\<lambda>r. lo \<le> key r \<and> key r < hi) xs"
    by simp
  have "xs = filter (\<lambda>r. key r < lo) xs @ ?B"
    using assms by (rule sorted_split)
  with B f show ?thesis by metis
qed


lemma analyze_data_minutes_col:
  assumes "df \<noteq> []"
  shows "map LearningTime (analyze_data df) = map snd (resample_D_sum (sort_values df))"
proof (rule nth_equalityI)
  show "length (map LearningTime (analyze_data df)) =
        length (map snd (resample_D_sum (sort_values df)))"
    by (simp add: length_analyze_data[OF assms])
  fix i assume "i < length (map LearningTime (analyze_data df))"
  then have i: "i < length (resample_D_sum (sort_values df))"
    by (simp add: length_analyze_data[OF assms])
  then show "map LearningTime (analyze_data df) ! i =
        map snd (resample_D_sum (sort_values df)) ! i"
    using analyze_data_nth[OF assms i] by (simp add: length_analyze_data[OF assms])
qed

lemma cumsum_take: "i < length xs \<Longrightarrow> cumsum xs ! i = sum_list (take (Suc i) xs)"
  by (simp add: cumsum_def cumsum_from_nth)

lemma analyze_data_cumulative_take:
  assumes "i < length (analyze_data df)"
  shows "Cumulative_Time (analyze_data df ! i) =
         sum_list (map LearningTime (take (Suc i) (analyze_data df)))"
proof -
  from assms have ne: "df \<noteq> []" by (auto simp: analyze_data_def)
  have i: "i < length (resample_D_sum (sort_values df))"
    using assms length_analyze_data[OF ne] by simp
  have "Cumulative_Time (analyze_data df ! i) =
        sum_list (take (Suc i) (map snd (resample_D_sum (sort_values df))))"
    using i by (simp add: analyze_data_nth[OF ne i] cumsum_take)
  then show ?thesis
    by (simp add: analyze_data_minutes_col[OF ne, symmetric] take_map)
qed

lemma df_month_eq:
  "df_month df cms = with_monthly_cumulative (month_filter df cms)"
  by (simp add: df_month_def Let_def with_monthly_cumulative_def)

lemma length_with_monthly_cumulative:
  "length (with_monthly_cumulative rows) = length rows"
  by (simp add: with_monthly_cumulative_def length_cumsum)

lemma with_monthly_cumulative_nth:
  assumes "k < length rows"
  shows "with_monthly_cumulative rows ! k =
         \<lparr>Date = Date (rows ! k), LearningTime = LearningTime (rows ! k),
          Cumulative_Time = Cumulative_Time (rows ! k),
          Moving_Avg_60d = Moving_Avg_60d (rows ! k),
          Monthly_Cumulative = sum_list (map LearningTime (take (Suc k) rows))\<rparr>"
  using assms
  by (simp add: with_monthly_cumulative_def length_cumsum cumsum_take take_map)

lemma sum_list_take_nth:
  assumes "k < length xs"
  shows "sum_list (map f (take (Suc k) xs)) = (\<Sum>j = 0..k. (f (xs ! j) :: rat))"
proof -
  have "sum_list (map f (take (Suc k) xs)) = sum_list (drop 0 (take (Suc k) (map f xs)))"
    by (simp add: take_map)
  also have "\<dots> = (\<Sum>j = 0..<Suc k. map f xs ! j)"
    using assms by (intro sum_list_drop_take) simp
  also have "\<dots> = (\<Sum>j = 0..<Suc k. f (xs ! j))"
    using assms by (intro sum.cong) simp_all
  finally show ?thesis by (simp add: atLeastLessThanSuc_atLeastAtMost)
qed

subsection \<open>Bounds of the cumulative total\<close>

lemma sum_filter_disjoint:
  fixes f :: "'a \<Rightarrow> rat"
  assumes "\<And>r. r \<in> set xs \<Longrightarrow> \<not> (P r \<and> Q r)"
  shows "sum_list (map f (filter (\<lambda>r. P r \<or> Q r) xs)) =
         sum_list (map f (filter P xs)) + sum_list (map f (filter Q xs))"
  using assms by (induction xs) auto

lemma sum_per_date:
  assumes "distinct ds"
  shows "sum_list (map (\<lambda>d. sum_list (map snd (filter (\<lambda>r. fst r = d) df))) ds) =
         sum_list (map snd (filter (\<lambda>r. fst r \<in> set ds) (df :: ('k \<times> rat) list)))"
  using assms
proof (induction ds)
  case Nil
  then show ?case by simp
next
  case (Cons d ds)
  have "sum_list (map snd (filter (\<lambda>r. fst r = d \<or> fst r \<in> set ds) df)) =
        sum_list (map snd (filter (\<lambda>r. fst r = d) df)) +
        sum_list (map snd (filter (\<lambda>r. fst r \<in> set ds) df))"
    using Cons.prems by (intro sum_filter_disjoint) auto
  then show ?case using Cons by simp
qed

lemma sum_filter_le_total:
  assumes "\<forall>r \<in> set xs. 0 \<le> snd r"
  shows "sum_list (map snd (filter P xs)) \<le> sum_list (map snd (xs :: ('k \<times> rat) list))"
  using assms by (induction xs) auto

lemma analyze_data_minutes_in_set:
  assumes "r \<in> set (analyze_data df)"
  shows "LearningTime r = sum_list (map snd (filter (\<lambda>x. fst x = Date r) df))"
proof -
  from assms obtain i where "i < length (analyze_data df)" "analyze_data df ! i = r"
    by (auto simp: in_set_conv_nth)
  then show ?thesis using analyze_data_minutes[of i df] by simp
qed

lemma analyze_data_cumulative_bound:
  assumes nn: "\<forall>r \<in> set df. 0 \<le> snd r" and j: "j < length (analyze_data df)"
  shows "Cumulative_Time (analyze_data df ! j) \<le> sum_list (map snd df)"
proof -
  let ?rows = "take (Suc j) (analyze_data df)"
  have d: "distinct (map Date ?rows)"
  proof -
    have "sorted_wrt (<) (map Date ?rows)"
      using sorted_analyze_data[of df] by (simp add: take_map[symmetric] sorted_wrt_take)
    then show ?thesis by (simp add: strict_sorted_iff)
  qed
  have m: "map LearningTime ?rows =
        map (\<lambda>d. sum_list (map snd (filter (\<lambda>x. fst x = d) df))) (map Date ?rows)"
    using analyze_data_minutes_in_set[of _ df] by (auto dest: in_set_takeD)
  have "Cumulative_Time (analyze_data df ! j) = sum_list (map LearningTime ?rows)"
    by (rule analyze_data_cumulative_take[OF j])
  also have "\<dots> = sum_list (map snd (filter (\<lambda>x. fst x \<in> set (map Date ?rows)) df))"
    unfolding m by (rule sum_per_date[OF d])
  finally have "Cumulative_Time (analyze_data df ! j) =
        sum_list (map snd (filter (\<lambda>x. fst x \<in> set (map Date ?rows)) df))" .
  then show ?thesis using sum_filter_le_total[OF nn] by simp
qed

subsection \<open>The two month filters\<close>

lemma to_datetime_col_length:
  "to_datetime_col f raw = Inr obs \<Longrightarrow> length obs = length raw"
proof (induction raw arbitrary: obs)
  case Nil
  then show ?case by simp
next
  case (Cons p raw)
  obtain s v where p: "p = (s, v)" by (cases p)
  from Cons.prems obtain d rest where "f s = Inr d" "to_datetime_col f raw = Inr rest"
    "obs = (d, v) # rest"
    unfolding p by (cases "f s"; cases "to_datetime_col f raw") auto
  then show ?case using Cons.IH by simp
qed

lemma analyze_data_zip:
  assumes "df \<noteq> []"
  shows "map (\<lambda>r. ((Date r, LearningTime r), Moving_Avg_60d r)) (analyze_data df) =
         zip (resample_D_sum (sort_values df))
             (rolling_mean 60 1 (map snd (resample_D_sum (sort_values df))))"
proof (rule nth_equalityI)
  show "length (map (\<lambda>r. ((Date r, LearningTime r), Moving_Avg_60d r)) (analyze_data df)) =
        length (zip (resample_D_sum (sort_values df))
             (rolling_mean 60 1 (map snd (resample_D_sum (sort_values df)))))"
    by (simp add: length_analyze_data[OF assms] length_rolling_mean)
  fix i assume "i < length (map (\<lambda>r. ((Date r, LearningTime r), Moving_Avg_60d r)) (analyze_data df))"
  then have i: "i < length (resample_D_sum (sort_values df))"
    by (simp add: length_analyze_data[OF assms])
  then show "map (\<lambda>r. ((Date r, LearningTime r), Moving_Avg_60d r)) (analyze_data df) ! i =
        zip (resample_D_sum (sort_values df))
             (rolling_mean 60 1 (map snd (resample_D_sum (sort_values df)))) ! i"
    using analyze_data_nth[OF assms i]
    by (simp add: length_analyze_data[OF assms] length_rolling_mean)
qed

lemma month_slice_by_format:
  assumes "\<forall>r \<in> set df. valid_date (fst r)" "1 \<le> m" "m \<le> 12"
    "year_of now = y" "month_of now = m"
  shows "map (\<lambda>r. ((Date r, LearningTime r), Moving_Avg_60d r))
             (month_filter (analyze_data df) (y, m, 1)) =
         filter (\<lambda>((d, mins), a). strftime_Y_m d = strftime_Y_m now)
                (map (\<lambda>r. ((Date r, LearningTime r), Moving_Avg_60d r)) (analyze_data df))"
proof -
  have "filter (\<lambda>r. (y, m, 1) \<le> Date r \<and> Date r < next_month_start (y, m, 1)) (analyze_data df) =
        filter (\<lambda>r. strftime_Y_m (Date r) = strftime_Y_m now) (analyze_data df)"
  proof (rule filter_cong[OF refl])
    fix r assume "r \<in> set (analyze_data df)"
    then have "valid_date (Date r)" by (rule valid_analyze_data[OF assms(1)])
    then show "((y, m, 1) \<le> Date r \<and> Date r < next_month_start (y, m, 1)) =
               (strftime_Y_m (Date r) = strftime_Y_m now)"
      using assms(2-5) by (rule month_filter_iff)
  qed
  then show ?thesis
    by (simp add: month_filter_def filter_map comp_def)
qed


lemma month_view_projection:
  "map (\<lambda>r. (Date r, LearningTime r, Moving_Avg_60d r, Monthly_Cumulative r))
       (with_monthly_cumulative sel) =
   map (\<lambda>(((d, mins), a), c). (d, mins, a, c))
       (zip (map (\<lambda>r. ((Date r, LearningTime r), Moving_Avg_60d r)) sel)
            (cumsum (map (\<lambda>((d, mins), a). mins)
                         (map (\<lambda>r. ((Date r, LearningTime r), Moving_Avg_60d r)) sel))))"
proof -
  have c: "map (\<lambda>((d, mins), a). mins)
             (map (\<lambda>r. ((Date r, LearningTime r), Moving_Avg_60d r)) sel) = map LearningTime sel"
    by simp
  show ?thesis
    unfolding c with_monthly_cumulative_def
    by (simp add: zip_map1 case_prod_beta)
qed

section \<open>The moving average of the daily series\<close>

text \<open>
  Claim C1. In the daily series that \<^verbatim>\<open>analyze_data\<close> builds from any observations, the
  60-day moving average at index \<open>i\<close> (counted from 0) is present, and it is the
  arithmetic mean of the daily minutes at the indices from \<open>max 0 (i - 59)\<close> to \<open>i\<close>:
  their sum divided by the width \<open>min 60 (i + 1)\<close> of the window. No point of the series
  has a missing average.
\<close>

theorem moving_avg_60d_trailing_mean:
  assumes "i < length (analyze_data df)"
  shows "Moving_Avg_60d (analyze_data df ! i) =
         Some ((\<Sum>j = (if i < 59 then 0 else i - 59)..i. LearningTime (analyze_data df ! j))
               / of_nat (min 60 (i + 1)))"
proof -
  let ?dd = "resample_D_sum (sort_values df)"
  let ?mins = "map snd ?dd"
  from assms have ne: "df \<noteq> []" by (auto simp: analyze_data_def)
  have len: "length (analyze_data df) = length ?dd" by (rule length_analyze_data[OF ne])
  have i: "i < length ?dd" using assms len by simp
  have "Moving_Avg_60d (analyze_data df ! i) = rolling_mean 60 1 ?mins ! i"
    by (simp add: analyze_data_nth[OF ne i])
  also have "\<dots> = calc_mean 1 (min (Suc i) 60) (\<Sum>j = Suc i - 60..<Suc i. ?mins ! j)"
    using i by (intro rolling_mean_nth) simp_all
  also have "\<dots> = Some ((\<Sum>j = Suc i - 60..<Suc i. ?mins ! j) / of_nat (min (Suc i) 60))"
    by (simp add: calc_mean_def)
  also have "{Suc i - 60..<Suc i} = {(if i < 59 then 0 else i - 59)..i}"
    by auto
  also have "(\<Sum>j = (if i < 59 then 0 else i - 59)..i. ?mins ! j) =
             (\<Sum>j = (if i < 59 then 0 else i - 59)..i. LearningTime (analyze_data df ! j))"
  proof (rule sum.cong[OF refl])
    fix j assume "j \<in> {(if i < 59 then 0 else i - 59)..i}"
    then have j: "j < length ?dd" using i by simp
    show "?mins ! j = LearningTime (analyze_data df ! j)"
      by (simp add: analyze_data_nth[OF ne j] j)
  qed
  finally show ?thesis by (simp add: min.commute)
qed

theorem moving_avg_60d_trailing_mean_witness:
  "2 < length (analyze_data [((2026, 1, 1), 30), ((2026, 1, 1), 20), ((2026, 1, 3), 10)]) \<and>
   Moving_Avg_60d
     (analyze_data [((2026, 1, 1), 30), ((2026, 1, 1), 20), ((2026, 1, 3), 10)] ! 2) =
     Some ((\<Sum>j = (if (2::nat) < 59 then 0 else 2 - 59)..2.
              LearningTime
                (analyze_data [((2026, 1, 1), 30), ((2026, 1, 1), 20), ((2026, 1, 3), 10)] ! j))
           / of_nat (min 60 (2 + 1)))"
proof -
  have "length (analyze_data [((2026, 1, 1), 30), ((2026, 1, 1), 20), ((2026, 1, 3), 10)]) = 3"
    by code_simp
  then have h: "2 < length (analyze_data [((2026, 1, 1), 30), ((2026, 1, 1), 20), ((2026, 1, 3), 10)])"
    by simp
  show ?thesis
    using h moving_avg_60d_trailing_mean[OF h] by blast
qed

section \<open>The cumulative total of the daily series\<close>

text \<open>
  Claim C4 says that, for every observation set, the cumulative total of each point of
  the daily series is the sum of the minutes of all points up to and including it (the
  observations of one day summed, a day without observation counting 0), and that the
  cumulative total never decreases along the series. The second part fails for the
  observations the program accepts: \<^verbatim>\<open>process_raw_data\<close> keeps any number, and with 10
  minutes on 2026-01-01 and -10 minutes on 2026-01-02 the cumulative total goes from 10
  down to 0.
\<close>

theorem cumulative_total_decreases_counterexample:
  "length (analyze_data [((2026, 1, 1), 10), ((2026, 1, 2), - 10)]) = 2 \<and>
   Cumulative_Time (analyze_data [((2026, 1, 1), 10), ((2026, 1, 2), - 10)] ! 0) = 10 \<and>
   Cumulative_Time (analyze_data [((2026, 1, 1), 10), ((2026, 1, 2), - 10)] ! 1) = 0"
  by code_simp

text \<open>
  Claim C4, amended. In the daily series built from any observations, the minutes of a
  point are the sum of the minutes of the observations logged on its date (0 on a day
  without observation), and the cumulative total of a point is the sum of the minutes of
  all points up to and including it. When no observation has negative minutes and the
  minutes of all observations together stay below \<open>2 ^ 63\<close>, every cumulative total
  lies from 0 to below \<open>2 ^ 63\<close>, the range in which the sums of a column of 64-bit
  integers are exact, and the cumulative total never decreases along the series. The
  observations 30 and 20 minutes on 2026-01-01 and 10 minutes on 2026-01-03 give the
  three points (01-01, 50, 50), (01-02, 0, 50), (01-03, 10, 60).
\<close>

theorem cumulative_total_running_sum:
  "(\<forall>i < length (analyze_data df).
      Cumulative_Time (analyze_data df ! i) =
        (\<Sum>j = 0..i. LearningTime (analyze_data df ! j)) \<and>
      LearningTime (analyze_data df ! i) =
        sum_list (map snd (filter (\<lambda>r. fst r = Date (analyze_data df ! i)) df))) \<and>
   ((\<forall>r \<in> set df. 0 \<le> snd r) \<and> sum_list (map snd df) < 2 ^ 63 \<longrightarrow>
      (\<forall>i j. i \<le> j \<and> j < length (analyze_data df) \<longrightarrow>
         0 \<le> Cumulative_Time (analyze_data df ! i) \<and>
         Cumulative_Time (analyze_data df ! i) \<le> Cumulative_Time (analyze_data df ! j) \<and>
         Cumulative_Time (analyze_data df ! j) < 2 ^ 63)) \<and>
   map (\<lambda>r. (Date r, LearningTime r, Cumulative_Time r))
       (analyze_data [((2026, 1, 1), 30), ((2026, 1, 1), 20), ((2026, 1, 3), 10)]) =
     [((2026, 1, 1), 50, 50), ((2026, 1, 2), 0, 50), ((2026, 1, 3), 10, 60)]"
proof (intro conjI allI impI)
  fix i assume "i < length (analyze_data df)"
  then show "Cumulative_Time (analyze_data df ! i) =
        (\<Sum>j = 0..i. LearningTime (analyze_data df ! j))"
    by (rule analyze_data_cumulative)
next
  fix i assume "i < length (analyze_data df)"
  then show "LearningTime (analyze_data df ! i) =
        sum_list (map snd (filter (\<lambda>r. fst r = Date (analyze_data df ! i)) df))"
    by (rule analyze_data_minutes)
next
  fix i j
  assume h: "(\<forall>r \<in> set df. 0 \<le> snd r) \<and> sum_list (map snd df) < 2 ^ 63"
    and ij: "i \<le> j \<and> j < length (analyze_data df)"
  from h have nn: "\<forall>r \<in> set df. 0 \<le> snd r" and total: "sum_list (map snd df) < 2 ^ 63"
    by simp_all
  have nonneg: "0 \<le> LearningTime (analyze_data df ! b)" if "b < length (analyze_data df)" for b
    using that by (rule analyze_data_minutes_nonneg[OF nn])
  have "0 \<le> (\<Sum>k = 0..i. LearningTime (analyze_data df ! k))"
    using ij by (intro sum_nonneg nonneg) simp
  then show "0 \<le> Cumulative_Time (analyze_data df ! i)"
    using ij by (simp add: analyze_data_cumulative)
  have "(\<Sum>k = 0..i. LearningTime (analyze_data df ! k)) \<le>
        (\<Sum>k = 0..j. LearningTime (analyze_data df ! k))"
  proof (rule sum_mono2)
    show "finite {0..j}" by simp
    show "{0..i} \<subseteq> {0..j}" using ij by simp
    fix b assume "b \<in> {0..j} - {0..i}"
    then have "b < length (analyze_data df)" using ij by simp
    then show "0 \<le> LearningTime (analyze_data df ! b)" by (rule nonneg)
  qed
  then show "Cumulative_Time (analyze_data df ! i) \<le> Cumulative_Time (analyze_data df ! j)"
    using ij by (simp add: analyze_data_cumulative)
  have "Cumulative_Time (analyze_data df ! j) \<le> sum_list (map snd df)"
    using ij by (intro analyze_data_cumulative_bound[OF nn]) simp
  then show "Cumulative_Time (analyze_data df ! j) < 2 ^ 63"
    using total by simp
next
  show "map (\<lambda>r. (Date r, LearningTime r, Cumulative_Time r))
       (analyze_data [((2026, 1, 1), 30), ((2026, 1, 1), 20), ((2026, 1, 3), 10)]) =
     [((2026, 1, 1), 50, 50), ((2026, 1, 2), 0, 50), ((2026, 1, 3), 10, 60)]"
    by code_simp
qed

theorem cumulative_total_running_sum_witness:
  "(2::nat) < length (analyze_data [((2026, 1, 1), 30), ((2026, 1, 1), 20), ((2026, 1, 3), 10)]) \<and>
   sum_list (map snd [((2026, 1, 1), 30), ((2026, 1, 1), 20), ((2026::nat, 1::nat, 3::nat), 10::rat)])
     < 2 ^ 63 \<and>
   Cumulative_Time (analyze_data [((2026, 1, 1), 30), ((2026, 1, 1), 20), ((2026, 1, 3), 10)] ! 2) =
     (\<Sum>j = 0..2. LearningTime (analyze_data [((2026, 1, 1), 30), ((2026, 1, 1), 20), ((2026, 1, 3), 10)] ! j)) \<and>
   0 \<le> Cumulative_Time (analyze_data [((2026, 1, 1), 30), ((2026, 1, 1), 20), ((2026, 1, 3), 10)] ! 0) \<and>
   Cumulative_Time (analyze_data [((2026, 1, 1), 30), ((2026, 1, 1), 20), ((2026, 1, 3), 10)] ! 0)
     \<le> Cumulative_Time (analyze_data [((2026, 1, 1), 30), ((2026, 1, 1), 20), ((2026, 1, 3), 10)] ! 2) \<and>
   Cumulative_Time (analyze_data [((2026, 1, 1), 30), ((2026, 1, 1), 20), ((2026, 1, 3), 10)] ! 2)
     < 2 ^ 63"
proof -
  let ?df = "[((2026, 1, 1), 30), ((2026, 1, 1), 20), ((2026::nat, 1::nat, 3::nat), 10::rat)]"
  let ?rows = "analyze_data ?df"
  have "length ?rows = 3" by code_simp
  then have h: "(2::nat) < length ?rows" by simp
  have nn: "\<forall>r \<in> set ?df. 0 \<le> snd r" by simp
  have total: "sum_list (map snd ?df) < 2 ^ 63" by simp
  have le: "(0::nat) \<le> 2 \<and> 2 < length ?rows" using h by simp
  have c1: "\<forall>i < length ?rows.
      Cumulative_Time (?rows ! i) = (\<Sum>j = 0..i. LearningTime (?rows ! j)) \<and>
      LearningTime (?rows ! i) =
        sum_list (map snd (filter (\<lambda>r. fst r = Date (?rows ! i)) ?df))"
    using cumulative_total_running_sum[of ?df] by (rule conjunct1)
  have c2: "(\<forall>r \<in> set ?df. 0 \<le> snd r) \<and> sum_list (map snd ?df) < 2 ^ 63 \<longrightarrow>
      (\<forall>i j. i \<le> j \<and> j < length ?rows \<longrightarrow>
         0 \<le> Cumulative_Time (?rows ! i) \<and>
         Cumulative_Time (?rows ! i) \<le> Cumulative_Time (?rows ! j) \<and>
         Cumulative_Time (?rows ! j) < 2 ^ 63)"
    using conjunct2[OF cumulative_total_running_sum[of ?df]] by (rule conjunct1)
  have e1: "Cumulative_Time (?rows ! 2) = (\<Sum>j = 0..2. LearningTime (?rows ! j))"
    using c1[rule_format, OF h] by (rule conjunct1)
  have c3: "\<forall>i j. i \<le> j \<and> j < length ?rows \<longrightarrow>
         0 \<le> Cumulative_Time (?rows ! i) \<and>
         Cumulative_Time (?rows ! i) \<le> Cumulative_Time (?rows ! j) \<and>
         Cumulative_Time (?rows ! j) < 2 ^ 63"
    using c2 conjI[OF nn total] by (rule mp)
  note e2 = c3[rule_format, OF le]
  show ?thesis
    using h total e1 e2 by (intro conjI) blast+
qed

section \<open>The display domain\<close>

text \<open>
  Claim C8. For the rows of any month, the display domain of the moving average is
  [0, 300] when no moving-average value is present in the rows. Otherwise, with \<open>min_v\<close>
  and \<open>max_v\<close> the least and the greatest value present and the padding
  \<open>(max_v - min_v) * 0.2\<close>, replaced by 20 when it is exactly 0, the domain is
  \<open>[max 0 (min_v - padding), max_v + padding]\<close>. When every value present is 5, the
  domain is [0, 25].
\<close>

theorem ma_domain_padded_range:
  "(dropna (map Moving_Avg_60d dfm) = [] \<longrightarrow> ma_domain dfm = (0, 300)) \<and>
   (dropna (map Moving_Avg_60d dfm) \<noteq> [] \<longrightarrow>
      (let min_v = Min (set (dropna (map Moving_Avg_60d dfm)));
           max_v = Max (set (dropna (map Moving_Avg_60d dfm)));
           padding = (if (max_v - min_v) * 0.2 = 0 then 20 else (max_v - min_v) * 0.2)
       in ma_domain dfm = (max 0 (min_v - padding), max_v + padding))) \<and>
   (dropna (map Moving_Avg_60d dfm) \<noteq> [] \<and>
    (\<forall>v \<in> set (dropna (map Moving_Avg_60d dfm)). v = 5) \<longrightarrow>
      ma_domain dfm = (0, 25))"
proof (intro conjI impI)
  assume "dropna (map Moving_Avg_60d dfm) = []"
  then show "ma_domain dfm = (0, 300)" by (simp add: ma_domain_def)
next
  assume ne: "dropna (map Moving_Avg_60d dfm) \<noteq> []"
  then show "let min_v = Min (set (dropna (map Moving_Avg_60d dfm)));
           max_v = Max (set (dropna (map Moving_Avg_60d dfm)));
           padding = (if (max_v - min_v) * 0.2 = 0 then 20 else (max_v - min_v) * 0.2)
       in ma_domain dfm = (max 0 (min_v - padding), max_v + padding)"
    by (simp add: ma_domain_def Let_def series_min_Min series_max_Max)
next
  assume a: "dropna (map Moving_Avg_60d dfm) \<noteq> [] \<and>
    (\<forall>v \<in> set (dropna (map Moving_Avg_60d dfm)). v = 5)"
  then have "set (dropna (map Moving_Avg_60d dfm)) = {5}" by (cases "dropna (map Moving_Avg_60d dfm)") auto
  then show "ma_domain dfm = (0, 25)"
    using a by (simp add: ma_domain_def Let_def series_min_Min series_max_Max)
qed

theorem ma_domain_padded_range_witness:
  "dropna (map Moving_Avg_60d (df_month (analyze_data []) (2026, 1, 1))) = [] \<and>
   ma_domain (df_month (analyze_data []) (2026, 1, 1)) = (0, 300) \<and>
   dropna (map Moving_Avg_60d
     (df_month (analyze_data [((2026, 1, 1), 30), ((2026, 1, 1), 20), ((2026, 1, 3), 10)])
        (2026, 1, 1))) \<noteq> [] \<and>
   ma_domain
     (df_month (analyze_data [((2026, 1, 1), 30), ((2026, 1, 1), 20), ((2026, 1, 3), 10)])
        (2026, 1, 1)) = (14, 56) \<and>
   dropna (map Moving_Avg_60d
      (df_month (analyze_data [((2026, 1, 1), 5), ((2026, 1, 2), 5)]) (2026, 1, 1))) = [5, 5] \<and>
   ma_domain (df_month (analyze_data [((2026, 1, 1), 5), ((2026, 1, 2), 5)]) (2026, 1, 1))
     = (0, 25)"
proof -
  let ?d0 = "df_month (analyze_data []) (2026, 1, 1)"
  let ?d1 = "df_month (analyze_data [((2026, 1, 1), 30), ((2026, 1, 1), 20), ((2026, 1, 3), 10)])
        (2026, 1, 1)"
  let ?d2 = "df_month (analyze_data [((2026, 1, 1), 5), ((2026, 1, 2), 5)]) (2026, 1, 1)"
  have v0: "dropna (map Moving_Avg_60d ?d0) = []" by code_simp
  have v1: "dropna (map Moving_Avg_60d ?d1) = [50, 25, 20]" by code_simp
  have v2: "dropna (map Moving_Avg_60d ?d2) = [5, 5]" by code_simp
  have r0: "ma_domain ?d0 = (0, 300)"
    using ma_domain_padded_range[of ?d0, unfolded v0] by simp
  have r1: "ma_domain ?d1 = (14, 56)"
    using ma_domain_padded_range[of ?d1, unfolded v1] by simp
  have r2: "ma_domain ?d2 = (0, 25)"
    using ma_domain_padded_range[of ?d2, unfolded v2] by simp
  show ?thesis
    unfolding v0 v1 v2 using r0 r1 r2 by simp
qed

text \<open>
  Claim C9 asks that the lower bound is not floored at 0 when a moving-average value of
  the month is negative, as the comment above the computation in \<^verbatim>\<open>main\<close> says
  ("unless data is negative"). The code floors it all the same: a single observation of
  -10 minutes on 2026-01-01 gives the value -10 for January 2026, padding 20, and the
  domain [0, 10] instead of [-30, 10].
\<close>

theorem ma_domain_floor_applied_to_negative:
  "dropna (map Moving_Avg_60d (df_month (analyze_data [((2026, 1, 1), - 10)]) (2026, 1, 1))) = [- 10] \<and>
   ma_domain (df_month (analyze_data [((2026, 1, 1), - 10)]) (2026, 1, 1)) = (0, 10)"
  by code_simp

section \<open>Normalisation of one record\<close>





section \<open>A batch with a month title of another type\<close>

text \<open>
  Claim C5 asks that no malformed record aborts its batch, and names the case of a
  month-title property that is present but not of the title type. The loop of
  \<^verbatim>\<open>process_raw_data\<close> tests the type tag of the date property before it reads the
  value, and the record is dropped (claim C6); the loop of \<^verbatim>\<open>process_goal_data\<close>
  reads \<^verbatim>\<open>month_prop["title"]\<close> without that test. A batch of two goal records, the
  first with a month title of type rich_text and the second well formed, ends in a
  \<^verbatim>\<open>KeyError\<close>, and the second record, which alone gives a goal, is lost with it.
\<close>

theorem process_goal_data_aborts_on_non_title:
  "process_goal_data
     [JObj [(''properties'', JObj
        [(PROPERTY_MONTH_TITLE, JObj [(''type'', JStr ''rich_text''), (''rich_text'', JArr [])]),
         (PROPERTY_GOAL_TIME, JObj [(''type'', JStr ''number''), (''number'', JNum 5)])])],
      JObj [(''properties'', JObj
        [(PROPERTY_MONTH_TITLE, JObj [(''type'', JStr ''title''),
            (''title'', JArr [JObj [(''type'', JStr ''text''),
                                    (''text'', JObj [(''content'', JStr ''2026-Jan'')])]])]),
         (PROPERTY_GOAL_TIME, JObj [(''type'', JStr ''number''), (''number'', JNum 10)])])]]
     = Inl (KeyError ''title'') \<and>
   process_goal_data
     [JObj [(''properties'', JObj
        [(PROPERTY_MONTH_TITLE, JObj [(''type'', JStr ''title''),
            (''title'', JArr [JObj [(''type'', JStr ''text''),
                                    (''text'', JObj [(''content'', JStr ''2026-Jan'')])]])]),
         (PROPERTY_GOAL_TIME, JObj [(''type'', JStr ''number''), (''number'', JNum 10)])])]]
     = Inr [\<lparr>Month = (2026, 1, 1), GoalTime = JNum 600\<rparr>]"
  by (simp add: process_goal_data_def goal_page_def goal_time_of_def py_or_def
        PROPERTY_MONTH_TITLE_def PROPERTY_GOAL_TIME_def strptime_eval)

section \<open>The target line\<close>

text \<open>
  Claim C2. For the selected month \<open>m\<close> of the year \<open>y\<close>, with \<open>n\<close> its number of days
  (29 for February of a leap year) and \<open>goal\<close> the goal found for the month (0 when the
  goal frame has no row for it): the target sequence is not empty exactly when \<open>goal\<close>
  is strictly positive. In that case it has one point for each day \<open>d\<close> from 1 to \<open>n\<close>,
  in this order, with the value \<open>goal * (d / n)\<close>; its values are strictly increasing
  and the last one is \<open>goal\<close>. When the goal is zero or negative the sequence is empty.
\<close>

theorem target_line_of_positive_goal:
  assumes "1 \<le> m" "m \<le> 12"
  shows "let n = (if m = 2 then (if y mod 4 = 0 \<and> (y mod 100 \<noteq> 0 \<or> y mod 400 = 0)
                                then 29 else 28)
                  else if m \<in> {4, 6, 9, 11} then 30 else 31);
             goal = current_goal_minutes goal_df (y, m, 1);
             targets = target_data goal_df (y, m, 1)
         in (targets \<noteq> [] \<longleftrightarrow> 0 < goal) \<and>
            (0 < goal \<longrightarrow>
               targets = map (\<lambda>d. ((y, m, d), goal * (of_nat d / of_nat n))) [1..<n + 1] \<and>
               sorted_wrt (<) (map snd targets) \<and>
               snd (last targets) = goal) \<and>
            (goal \<le> 0 \<longrightarrow> targets = [])"
proof -
  define n :: nat where "n = (if m = 2 then (if y mod 4 = 0 \<and> (y mod 100 \<noteq> 0 \<or> y mod 400 = 0)
                                then 29 else 28)
                  else if m \<in> {4, 6, 9, 11} then 30 else 31)"
  let ?g = "current_goal_minutes goal_df (y, m, 1)"
  have ym: "year_of (y, m, 1) = y" "month_of (y, m, 1) = m"
    by (simp_all add: year_of_def month_of_def)
  have n: "days_in_month y m = n"
    by (auto simp: n_def days_in_month_def isleap_def)
  have npos: "0 < n" using days_in_month_pos[of y m] n by simp
  have eq: "target_data goal_df (y, m, 1) =
              map (\<lambda>d. ((y, m, d), ?g * (of_nat d / of_nat n))) [1..<n + 1]" if "0 < ?g"
    by (rule target_data_positive[OF that, unfolded ym n])
  have empty: "target_data goal_df (y, m, 1) = []" if "?g \<le> 0"
    using that by (simp add: target_data_def Let_def)
  have ne: "target_data goal_df (y, m, 1) \<noteq> []" if "0 < ?g"
    unfolding eq[OF that] using npos by simp
  have mono: "sorted_wrt (<) (map snd (target_data goal_df (y, m, 1)))" if "0 < ?g"
    unfolding eq[OF that]
    using target_values_increasing[OF that npos, of 1 "n + 1"] by (simp add: comp_def)
  have lst: "snd (last (target_data goal_df (y, m, 1))) = ?g" if "0 < ?g"
    unfolding eq[OF that] using npos by (simp add: last_map)
  have "(target_data goal_df (y, m, 1) \<noteq> [] \<longleftrightarrow> 0 < ?g) \<and>
            (0 < ?g \<longrightarrow>
               target_data goal_df (y, m, 1) =
                 map (\<lambda>d. ((y, m, d), ?g * (of_nat d / of_nat n))) [1..<n + 1] \<and>
               sorted_wrt (<) (map snd (target_data goal_df (y, m, 1))) \<and>
               snd (last (target_data goal_df (y, m, 1))) = ?g) \<and>
            (?g \<le> 0 \<longrightarrow> target_data goal_df (y, m, 1) = [])"
  proof (intro conjI impI iffI)
    assume "target_data goal_df (y, m, 1) \<noteq> []"
    then show "0 < ?g" using empty by (cases "0 < ?g") auto
  qed (use eq empty ne mono lst in blast)+
  then show ?thesis
    unfolding Let_def n_def .
qed


theorem target_line_of_positive_goal_witness:
  "(1::nat) \<le> 2 \<and> (2::nat) \<le> 12 \<and>
   0 < current_goal_minutes [\<lparr>Month = (2024, 2, 1), GoalTime = 580\<rparr>] (2024, 2, 1) \<and>
   target_data [\<lparr>Month = (2024, 2, 1), GoalTime = 580\<rparr>] (2024, 2, 1) =
     map (\<lambda>d. ((2024, 2, d), 580 * (of_nat d / of_nat 29))) [1..<29 + 1] \<and>
   snd (last (target_data [\<lparr>Month = (2024, 2, 1), GoalTime = 580\<rparr>] (2024, 2, 1))) = 580 \<and>
   current_goal_minutes [\<lparr>Month = (2024, 2, 1), GoalTime = 580\<rparr>] (2024, 3, 1) \<le> 0 \<and>
   target_data [\<lparr>Month = (2024, 2, 1), GoalTime = 580\<rparr>] (2024, 3, 1) = []"
proof -
  have m2: "(1::nat) \<le> 2" "(2::nat) \<le> 12" and m3: "(1::nat) \<le> 3" "(3::nat) \<le> 12"
    by simp_all
  have g2: "current_goal_minutes [\<lparr>Month = (2024, 2, 1), GoalTime = 580\<rparr>] (2024, 2, 1) = 580"
    by code_simp
  have g3: "current_goal_minutes [\<lparr>Month = (2024, 2, 1), GoalTime = 580\<rparr>] (2024, 3, 1) = 0"
    by code_simp
  have n2: "(if (2::nat) = 2 then (if (2024::nat) mod 4 = 0 \<and> ((2024::nat) mod 100 \<noteq> 0 \<or> (2024::nat) mod 400 = 0)
                                then 29 else 28)
                  else if (2::nat) \<in> {4, 6, 9, 11} then 30 else 31) = (29::nat)"
    by simp
  note t2 = target_line_of_positive_goal[OF m2, of 2024 "[\<lparr>Month = (2024, 2, 1), GoalTime = 580\<rparr>]",
      unfolded Let_def g2 n2]
  note t3 = target_line_of_positive_goal[OF m3, of 2024 "[\<lparr>Month = (2024, 2, 1), GoalTime = 580\<rparr>]",
      unfolded Let_def g3]
  have pos: "(0::rat) < 580" and npos: "(0::rat) \<le> 0" by simp_all
  note u = mp[OF conjunct1[OF conjunct2[OF t2]] pos]
  have a: "target_data [\<lparr>Month = (2024, 2, 1), GoalTime = 580\<rparr>] (2024, 2, 1) =
     map (\<lambda>d. ((2024, 2, d), 580 * (of_nat d / of_nat 29))) [1..<29 + 1]"
    by (rule conjunct1[OF u])
  have b: "snd (last (target_data [\<lparr>Month = (2024, 2, 1), GoalTime = 580\<rparr>] (2024, 2, 1))) = 580"
    by (rule conjunct2[OF conjunct2[OF u]])
  have c: "target_data [\<lparr>Month = (2024, 2, 1), GoalTime = 580\<rparr>] (2024, 3, 1) = []"
    by (rule mp[OF conjunct2[OF conjunct2[OF t3]] npos])
  show ?thesis
    unfolding g2 g3 using m2 pos npos a b c by (intro conjI)
qed

section \<open>The cumulative total of a month\<close>

text \<open>
  Claim C3 says that the month view holds exactly the points dated from the start of the
  month up to, and not including, the start of the next month, that its cumulative is
  the running sum of the minutes of these points alone, and that this cumulative never
  equals the cumulative total of the full history except in the first month of history.
  The last part fails: with an observation of 0 minutes on 2026-01-31 and one of 10
  minutes on 2026-02-01, February is the second month of the history, and its only point
  has the monthly cumulative 10 and the cumulative total 10.
\<close>

theorem monthly_cumulative_equals_total_counterexample:
  "Date (analyze_data [((2026, 1, 31), 0), ((2026, 2, 1), 10)] ! 0) = (2026, 1, 31) \<and>
   length (df_month (analyze_data [((2026, 1, 31), 0), ((2026, 2, 1), 10)]) (2026, 2, 1)) = 1 \<and>
   Date (df_month (analyze_data [((2026, 1, 31), 0), ((2026, 2, 1), 10)]) (2026, 2, 1) ! 0)
     = (2026, 2, 1) \<and>
   Monthly_Cumulative
     (df_month (analyze_data [((2026, 1, 31), 0), ((2026, 2, 1), 10)]) (2026, 2, 1) ! 0) = 10 \<and>
   Cumulative_Time
     (df_month (analyze_data [((2026, 1, 31), 0), ((2026, 2, 1), 10)]) (2026, 2, 1) ! 0) = 10"
  by code_simp

text \<open>
  Claim C3, amended. For any observations and any selected month starting at \<open>cms\<close>,
  the rows of the month view are, in date, minutes, cumulative total and moving average,
  exactly the points of the daily series dated in \<open>[cms, next_month_start cms)\<close>; the
  monthly cumulative of the \<open>k\<close>-th row is the sum of the minutes of the rows 0 to \<open>k\<close>
  of the month; and it equals the cumulative total of that row minus the sum of the
  minutes of all points of the daily series dated before \<open>cms\<close>. The two cumulatives
  therefore coincide exactly when the minutes before the month add up to zero, as they do
  in the first month of history.
\<close>

theorem monthly_cumulative_restarts:
  "map (\<lambda>r. (Date r, LearningTime r, Cumulative_Time r, Moving_Avg_60d r))
       (df_month (analyze_data df) cms) =
   map (\<lambda>r. (Date r, LearningTime r, Cumulative_Time r, Moving_Avg_60d r))
       (filter (\<lambda>r. cms \<le> Date r \<and> Date r < next_month_start cms) (analyze_data df)) \<and>
   (\<forall>k < length (df_month (analyze_data df) cms).
      Monthly_Cumulative (df_month (analyze_data df) cms ! k) =
        (\<Sum>j = 0..k. LearningTime (df_month (analyze_data df) cms ! j)) \<and>
      Monthly_Cumulative (df_month (analyze_data df) cms ! k) =
        Cumulative_Time (df_month (analyze_data df) cms ! k)
        - sum_list (map LearningTime (filter (\<lambda>r. Date r < cms) (analyze_data df))))"
proof (intro conjI allI impI)
  let ?A = "analyze_data df"
  let ?sel = "month_filter ?A cms"
  let ?pre = "filter (\<lambda>r. Date r < cms) ?A"
  let ?M = "df_month ?A cms"
  have lenM: "length ?M = length ?sel"
    by (simp add: df_month_eq length_with_monthly_cumulative)
  show "map (\<lambda>r. (Date r, LearningTime r, Cumulative_Time r, Moving_Avg_60d r)) ?M =
        map (\<lambda>r. (Date r, LearningTime r, Cumulative_Time r, Moving_Avg_60d r))
          (filter (\<lambda>r. cms \<le> Date r \<and> Date r < next_month_start cms) ?A)"
    unfolding month_filter_def[symmetric]
    by (rule nth_equalityI)
       (simp_all add: df_month_eq length_with_monthly_cumulative with_monthly_cumulative_nth)
  fix k assume "k < length ?M"
  then have k: "k < length ?sel" using lenM by simp
  have Mk: "?M ! k = \<lparr>Date = Date (?sel ! k), LearningTime = LearningTime (?sel ! k),
          Cumulative_Time = Cumulative_Time (?sel ! k),
          Moving_Avg_60d = Moving_Avg_60d (?sel ! k),
          Monthly_Cumulative = sum_list (map LearningTime (take (Suc k) ?sel))\<rparr>"
    unfolding df_month_eq by (rule with_monthly_cumulative_nth[OF k])
  have Mj: "LearningTime (?M ! j) = LearningTime (?sel ! j)" if "j \<le> k" for j
    unfolding df_month_eq using that k by (simp add: with_monthly_cumulative_nth)
  show "Monthly_Cumulative (?M ! k) = (\<Sum>j = 0..k. LearningTime (?M ! j))"
    using Mj by (simp add: Mk sum_list_take_nth[OF k])
  obtain post where split: "?A = ?pre @ ?sel @ post"
    using sorted_interval_split[OF sorted_analyze_data, of df cms "next_month_start cms"]
    unfolding month_filter_def by blast
  let ?i = "length ?pre + k"
  have i: "?i < length ?A"
    using k by (subst (2) split) simp
  have Ai: "?A ! ?i = ?sel ! k"
    using k by (subst split) (simp add: nth_append)
  have "take (Suc ?i) ?A = ?pre @ take (Suc k) ?sel"
    using k by (subst split) simp
  then have "Cumulative_Time (?sel ! k) =
             sum_list (map LearningTime ?pre) + sum_list (map LearningTime (take (Suc k) ?sel))"
    using analyze_data_cumulative_take[OF i] by (simp add: Ai)
  then show "Monthly_Cumulative (?M ! k) =
        Cumulative_Time (?M ! k) - sum_list (map LearningTime ?pre)"
    by (simp add: Mk)
qed


theorem monthly_cumulative_restarts_witness:
  "1 < length (df_month (analyze_data [((2026, 1, 30), 30), ((2026, 2, 1), 10), ((2026, 2, 2), 5)]) (2026, 2, 1)) \<and>
   Monthly_Cumulative (df_month (analyze_data [((2026, 1, 30), 30), ((2026, 2, 1), 10), ((2026, 2, 2), 5)]) (2026, 2, 1) ! 1) =
     (\<Sum>j = 0..1. LearningTime (df_month (analyze_data [((2026, 1, 30), 30), ((2026, 2, 1), 10), ((2026, 2, 2), 5)]) (2026, 2, 1) ! j)) \<and>
   Monthly_Cumulative (df_month (analyze_data [((2026, 1, 30), 30), ((2026, 2, 1), 10), ((2026, 2, 2), 5)]) (2026, 2, 1) ! 1) =
     Cumulative_Time (df_month (analyze_data [((2026, 1, 30), 30), ((2026, 2, 1), 10), ((2026, 2, 2), 5)]) (2026, 2, 1) ! 1)
     - sum_list (map LearningTime (filter (\<lambda>r. Date r < (2026, 2, 1)) (analyze_data [((2026, 1, 30), 30), ((2026, 2, 1), 10), ((2026, 2, 2), 5)])))"
proof -
  have "length (df_month (analyze_data [((2026, 1, 30), 30), ((2026, 2, 1), 10), ((2026, 2, 2), 5)]) (2026, 2, 1)) = 2"
    by code_simp
  then have h: "1 < length (df_month (analyze_data [((2026, 1, 30), 30), ((2026, 2, 1), 10), ((2026, 2, 2), 5)]) (2026, 2, 1))"
    by simp
  note t = conjunct2[OF monthly_cumulative_restarts[of "[((2026, 1, 30), 30), ((2026, 2, 1), 10), ((2026, 2, 2), 5)]" "(2026, 2, 1)"]]
  show ?thesis
    using h t[rule_format, OF h] by (intro conjI) blast+
qed

section \<open>The two programs give the same month rows\<close>

text \<open>
  Claim C10. Let the same frame of (date text, minutes) be given to both programs, let
  the date parser accept every date text, giving the observations \<open>obs\<close> with valid
  calendar dates, and let the clock of generate_chart.py read a day of the month \<open>m\<close> of
  the year \<open>y\<close>. Then \<^verbatim>\<open>process_data\<close> returns rows, and these rows agree in date,
  minutes, moving average and monthly cumulative with the rows that app.py computes for
  the selected month starting at \<open>(y, m, 1)\<close>: the filter by equality of the
  \<^verbatim>\<open>"%Y-%m"\<close> text selects the same points as the filter by the range of dates.
\<close>

theorem month_rows_agree:
  assumes "to_datetime_col to_datetime raw = Inr obs"
    and "\<forall>r \<in> set obs. valid_date (fst r)"
    and "1 \<le> m" and "m \<le> 12" and "year_of now = y" and "month_of now = m"
  shows "\<exists>rows. process_data to_datetime now raw = Inr rows \<and>
           map (\<lambda>r. (date r, minutes r, moving_avg_60d r, monthly_cumulative r)) rows =
           map (\<lambda>r. (Date r, LearningTime r, Moving_Avg_60d r, Monthly_Cumulative r))
               (df_month (analyze_data obs) (y, m, 1))"
proof (cases "raw = []")
  case True
  with assms(1) have "obs = []" by simp
  with True show ?thesis
    by (simp add: process_data_def analyze_data_def df_month_def month_filter_def)
next
  case False
  with to_datetime_col_length[OF assms(1)] have ne: "obs \<noteq> []" by auto
  let ?k = "\<lambda>r. ((Date r, LearningTime r), Moving_Avg_60d r)"
  let ?dd = "resample_D_sum (sort_values obs)"
  let ?T = "zip ?dd (rolling_mean 60 1 (map snd ?dd))"
  let ?rows = "filter (\<lambda>((d, mins), a). strftime_Y_m d = strftime_Y_m now) ?T"
  let ?sel = "month_filter (analyze_data obs) (y, m, 1)"
  have rows: "map ?k ?sel = ?rows"
    using month_slice_by_format[OF assms(2-6)] by (simp only: analyze_data_zip[OF ne])
  have pd: "process_data to_datetime now raw =
        Inr (map (\<lambda>(((d, mins), a), c).
                    \<lparr>date = d, minutes = mins, moving_avg_60d = a, monthly_cumulative = c\<rparr>)
                 (zip ?rows (cumsum (map (\<lambda>((d, mins), a). mins) ?rows))))"
    using False by (simp add: process_data_def assms(1) Let_def)
  have "map (\<lambda>r. (date r, minutes r, moving_avg_60d r, monthly_cumulative r))
          (map (\<lambda>(((d, mins), a), c).
                    \<lparr>date = d, minutes = mins, moving_avg_60d = a, monthly_cumulative = c\<rparr>)
                 (zip ?rows (cumsum (map (\<lambda>((d, mins), a). mins) ?rows)))) =
        map (\<lambda>(((d, mins), a), c). (d, mins, a, c))
            (zip ?rows (cumsum (map (\<lambda>((d, mins), a). mins) ?rows)))"
    by (simp add: case_prod_beta)
  also have "\<dots> = map (\<lambda>r. (Date r, LearningTime r, Moving_Avg_60d r, Monthly_Cumulative r))
               (df_month (analyze_data obs) (y, m, 1))"
    unfolding df_month_eq month_view_projection rows ..
  finally show ?thesis using pd by blast
qed

theorem month_rows_agree_witness:
  "to_datetime_col to_datetime_iso [(JStr ''2026-01-30'', 30::rat), (JStr ''2026-02-01'', 10),
      (JStr ''2026-02-02'', 5)] = Inr [((2026, 1, 30), 30::rat), ((2026, 2, 1), 10), ((2026, 2,
      2), 5)] \<and>
   valid_date (2026, 1, 30) \<and> valid_date (2026, 2, 1) \<and> valid_date (2026, 2, 2) \<and>
   (\<exists>rows. process_data to_datetime_iso (2026, 2, 14) [(JStr ''2026-01-30'', 30::rat),
       (JStr ''2026-02-01'', 10), (JStr ''2026-02-02'', 5)] = Inr rows \<and>
      map (\<lambda>r. (date r, minutes r, moving_avg_60d r, monthly_cumulative r)) rows =
      map (\<lambda>r. (Date r, LearningTime r, Moving_Avg_60d r, Monthly_Cumulative r))
          (df_month (analyze_data [((2026, 1, 30), 30::rat), ((2026, 2, 1), 10), ((2026, 2, 2), 5)]) (2026, 2, 1)))"
proof -
  have h1: "to_datetime_col to_datetime_iso [(JStr ''2026-01-30'', 30::rat), (JStr ''2026-02-01'',
      10), (JStr ''2026-02-02'', 5)] = Inr [((2026, 1, 30), 30::rat), ((2026, 2, 1), 10), ((2026,
      2, 2), 5)]"
    by code_simp
  have h2: "\<forall>r \<in> set [((2026, 1, 30), 30::rat), ((2026, 2, 1), 10), ((2026, 2, 2), 5)]. valid_date (fst r)"
    by code_simp
  have h3: "(1::nat) \<le> 2" "(2::nat) \<le> 12" "year_of (2026, 2, 14) = 2026"
    "month_of (2026, 2, 14) = 2"
    by (simp_all add: year_of_def month_of_def)
  have v: "valid_date (2026, 1, 30)" "valid_date (2026, 2, 1)" "valid_date (2026, 2, 2)"
    using h2 by simp_all
  show ?thesis
    using h1 v month_rows_agree[OF h1 h2 h3] by (intro conjI)
qed

end
